theory Spec2Isabelle
  imports Complex_Main "HOL-Library.Word" "HOL-Library.Log_Nat"
begin

unbundle bit_operations_syntax

section \<open>Machine types\<close>

type_synonym u8 = "8 word"
type_synonym u16 = "16 word"
type_synonym u64 = "64 word"

subsection \<open>Single-precision arithmetic\<close>

text \<open>
  The driver computes in C \<^verbatim>\<open>float\<close>. A finite value of that type is a rational number
  \<open>m * 2 ^ e\<close> with \<open>\<bar>m\<bar> < 2 ^ 24\<close> and \<open>- 149 \<le> e \<le> 104\<close>; every arithmetic operation
  returns the exact result rounded to the nearest such number, ties to the even
  significand (IEEE 754 binary32, the format of every target of the driver). The sign of
  a zero is not kept: the driver only ever divides by a zero that comes from an unsigned
  integer, and an infinity of either sign has no integer conversion.
\<close>

datatype f32 = Finite rat | PInf | NInf | NaN

definition pow2 :: "int \<Rightarrow> rat" where
  "pow2 k = (if 0 \<le> k then 2 ^ nat k else 1 / 2 ^ nat (- k))"

text \<open>\<open>ilog2 a\<close> is the binary exponent \<open>\<lfloor>log\<^sub>2 a\<rfloor>\<close> of a positive rational.\<close>

definition ilog2 :: "rat \<Rightarrow> int" where
  "ilog2 a = (if 1 \<le> a then bitlen \<lfloor>a\<rfloor> - 1 else - bitlen (\<lceil>1 / a\<rceil> - 1))"

definition round_half_even :: "rat \<Rightarrow> int" where
  "round_half_even q =
     (let m = \<lfloor>q\<rfloor>; r = q - of_int m
      in if r < 1 / 2 then m else if 1 / 2 < r then m + 1 else if even m then m else m + 1)"

definition round32 :: "rat \<Rightarrow> f32" where
  "round32 r =
     (if r = 0 then Finite 0
      else let a = \<bar>r\<bar>;
               e = max (ilog2 a) (- 126);
               u = pow2 (e - 23);
               v = of_int (round_half_even (a / u)) * u
           in if 2 ^ 128 \<le> v then (if 0 < r then PInf else NInf) else Finite (sgn r * v))"

fun f32_neg :: "f32 \<Rightarrow> f32" where
  "f32_neg (Finite a) = Finite (- a)"
| "f32_neg PInf = NInf"
| "f32_neg NInf = PInf"
| "f32_neg NaN = NaN"

fun f32_div :: "f32 \<Rightarrow> f32 \<Rightarrow> f32" where
  "f32_div (Finite a) (Finite b) =
     (if b = 0 then (if a = 0 then NaN else if 0 < a then PInf else NInf)
      else round32 (a / b))"
| "f32_div (Finite a) PInf = Finite 0"
| "f32_div (Finite a) NInf = Finite 0"
| "f32_div PInf (Finite b) = (if 0 \<le> b then PInf else NInf)"
| "f32_div NInf (Finite b) = (if 0 \<le> b then NInf else PInf)"
| "f32_div _ _ = NaN"

fun f32_mul :: "f32 \<Rightarrow> f32 \<Rightarrow> f32" where
  "f32_mul (Finite a) (Finite b) = round32 (a * b)"
| "f32_mul (Finite a) PInf = (if a = 0 then NaN else if 0 < a then PInf else NInf)"
| "f32_mul (Finite a) NInf = (if a = 0 then NaN else if 0 < a then NInf else PInf)"
| "f32_mul PInf (Finite b) = (if b = 0 then NaN else if 0 < b then PInf else NInf)"
| "f32_mul NInf (Finite b) = (if b = 0 then NaN else if 0 < b then NInf else PInf)"
| "f32_mul PInf PInf = PInf"
| "f32_mul NInf NInf = PInf"
| "f32_mul PInf NInf = NInf"
| "f32_mul NInf PInf = NInf"
| "f32_mul _ _ = NaN"

fun f32_add :: "f32 \<Rightarrow> f32 \<Rightarrow> f32" where
  "f32_add (Finite a) (Finite b) = round32 (a + b)"
| "f32_add (Finite a) PInf = PInf"
| "f32_add (Finite a) NInf = NInf"
| "f32_add PInf (Finite b) = PInf"
| "f32_add NInf (Finite b) = NInf"
| "f32_add PInf PInf = PInf"
| "f32_add NInf NInf = NInf"
| "f32_add _ _ = NaN"

definition f32_sub :: "f32 \<Rightarrow> f32 \<Rightarrow> f32" where
  "f32_sub a b = f32_add a (f32_neg b)"

text \<open>A 16-bit unsigned integer converts to \<^verbatim>\<open>float\<close> without rounding.\<close>

definition f32_of_u16 :: "u16 \<Rightarrow> f32" where
  "f32_of_u16 w = Finite (of_int (uint w))"

text \<open>
  Conversion of a \<^verbatim>\<open>float\<close> to an unsigned integer type drops the fraction. C++ defines
  the result only when the truncated value fits the destination. For a truncated value
  \<open>t\<close> that does not fit but has \<open>0 \<le> t < 2 ^ 31\<close> the model takes \<open>t mod 2 ^ n\<close>: the
  value a conversion through a 32-bit integer register followed by a truncation to \<open>n\<close>
  bits yields. Infinities, NaN and anything outside that range have no value here.
\<close>

definition trunc :: "rat \<Rightarrow> int" where
  "trunc r = (if 0 \<le> r then \<lfloor>r\<rfloor> else \<lceil>r\<rceil>)"

fun uint_of_f32 :: "f32 \<Rightarrow> 'a::len word option" where
  "uint_of_f32 (Finite r) =
     (let t = trunc r in if 0 \<le> t \<and> t < 2 ^ 31 then Some (word_of_int t) else None)"
| "uint_of_f32 _ = None"

section \<open>Driver constants\<close>

definition PCA9685_MODE1 :: u8 where "PCA9685_MODE1 = 0x0"
definition PCA9685_PRESCALE :: u8 where "PCA9685_PRESCALE = 0xFE"
definition LED0_ON_L :: int where "LED0_ON_L = 0x6"
definition ORB_SUB_UPDATE_PERIOD :: nat where "ORB_SUB_UPDATE_PERIOD = 10"
definition NUMBER_PWM_CHANNELS :: nat where "NUMBER_PWM_CHANNELS = 16"
definition PWM_PERIOD_MIN_US :: u16 where "PWM_PERIOD_MIN_US = 656"
definition PWM_PERIOD_MAX_US :: u16 where "PWM_PERIOD_MAX_US = 41666"
definition OK :: int where "OK = 0"

section \<open>Driver state\<close>

datatype IOX_MODE = IOX_MODE_ON | IOX_MODE_TEST_OUT

text \<open>
  Modelled from the spec: the uORB message type \<^verbatim>\<open>pca_pwm_s\<close> is generated outside the
  driver file. The command source delivers "a snapshot with fields \<^verbatim>\<open>period_us: u16\<close> and
  \<^verbatim>\<open>pulse_width_us: [u16; 16]\<close>"; the driver reads them as \<^verbatim>\<open>pwm_period\<close> and
  \<^verbatim>\<open>pulse_width[i]\<close>.
\<close>

record pca_pwm_s =
  pwm_period :: u16
  pulse_width :: "u16 list"

text \<open>
  What the driver does to the outside, in order: bus transfers (bytes sent, number of
  bytes to receive, return code), the blocking delay, the subscription calls and the
  work-queue scheduling calls.
\<close>

datatype event =
    Transfer "u8 list" nat int
  | Usleep nat
  | OrbSubscribe
  | OrbSetInterval nat
  | ScheduleDelayed u64

text \<open>Output of \<^verbatim>\<open>DEVICE_LOG\<close>, \<^verbatim>\<open>DEVICE_DEBUG\<close> and \<^verbatim>\<open>warnx\<close>.\<close>

datatype log_msg =
    LogTransferReturned int
  | DebugFreq f32 u16
  | DebugChannel nat u16 u16 u16
  | DebugOutOfRange u16
  | WarnResetting

text \<open>
  The fields of class \<^verbatim>\<open>PCA9685\<close> under their own names, and three fields for the
  world around it: \<open>i2c_replies\<close> is what the bus will answer to the transfers still to
  come (return code and byte received), \<open>trace\<close> the events so far, \<open>console\<close> the
  messages printed so far.
\<close>

record PCA9685 =
  mode :: IOX_MODE
  i2cpwm_interval :: u64
  comms_errors :: nat
  msg :: "u8 list"
  pca_pwm_sub :: int
  pca_pwm :: pca_pwm_s
  pwm_period_us :: u16
  pwm_freq :: f32
  test_pwm :: u16
  current_values :: "u16 list"
  mode_on_initialized :: bool
  updated :: bool
  i2c_replies :: "nat \<Rightarrow> int \<times> u8"
  trace :: "event list"
  console :: "log_msg list"

text \<open>
  The constructor. Members are initialised in the order of their declaration, so
  \<^verbatim>\<open>_i2cpwm_interval((float)_pwm_period_us)\<close> runs before the default initialiser
  \<^verbatim>\<open>_pwm_period_us = 20000\<close>: it reads whatever the fresh object holds there, the
  parameter \<open>raw_period\<close>.
\<close>

definition PCA9685_ctor :: "u16 \<Rightarrow> (nat \<Rightarrow> int \<times> u8) \<Rightarrow> PCA9685" where
  "PCA9685_ctor raw_period bus =
     \<lparr> mode = IOX_MODE_ON,
       i2cpwm_interval = (case uint_of_f32 (f32_of_u16 raw_period) of Some d \<Rightarrow> d | None \<Rightarrow> 0),
       comms_errors = 0,
       msg = replicate 6 0,
       pca_pwm_sub = - 1,
       pca_pwm = \<lparr> pwm_period = 0, pulse_width = replicate NUMBER_PWM_CHANNELS 0 \<rparr>,
       pwm_period_us = 20000,
       pwm_freq = Finite 50,
       test_pwm = 0,
       current_values = replicate NUMBER_PWM_CHANNELS 0,
       mode_on_initialized = False,
       updated = False,
       i2c_replies = bus,
       trace = [],
       console = [] \<rparr>"

section \<open>Bus access\<close>

text \<open>
  Modelled from the spec: \<^verbatim>\<open>transfer\<close> belongs to the base class \<^verbatim>\<open>device::I2C\<close>, outside
  the driver file. It is the transport primitive
  "\<^verbatim>\<open>transfer(write_bytes, write_len, read_buffer, read_len)\<close>", which either succeeds or
  fails with an opaque bus error: here it consumes the next reply of the bus, records the
  transfer and hands back the return code with the byte received.
\<close>

definition transfer :: "u8 list \<Rightarrow> nat \<Rightarrow> PCA9685 \<Rightarrow> (int \<times> u8) \<times> PCA9685" where
  "transfer send recv_len s =
     (i2c_replies s 0,
      s\<lparr> i2c_replies := (\<lambda>k. i2c_replies s (k + 1)),
         trace := trace s @ [Transfer send recv_len (fst (i2c_replies s 0))] \<rparr>)"

text \<open>
  Modelled from the spec: \<^verbatim>\<open>perf_count\<close> comes from the performance counter library,
  outside the driver file. The counter \<^verbatim>\<open>_comms_errors\<close> is the "monotonic count of failed
  transport operations", so counting adds one.
\<close>

definition perf_count :: "PCA9685 \<Rightarrow> PCA9685" where
  "perf_count s = s\<lparr> comms_errors := comms_errors s + 1 \<rparr>"

definition DEVICE_LOG :: "log_msg \<Rightarrow> PCA9685 \<Rightarrow> PCA9685" where
  "DEVICE_LOG m s = s\<lparr> console := console s @ [m] \<rparr>"

definition setPWM :: "u8 \<Rightarrow> u16 \<Rightarrow> u16 \<Rightarrow> PCA9685 \<Rightarrow> int \<times> PCA9685" where
  "setPWM num on off s =
     (let m = (msg s)[0 := word_of_int (LED0_ON_L + 4 * uint num),
                      1 := ucast on,
                      2 := ucast (drop_bit 8 on),
                      3 := ucast off,
                      4 := ucast (drop_bit 8 off)];
          (r, s1) = transfer (take 5 m) 0 (s\<lparr> msg := m \<rparr>);
          ret = fst r
      in if OK \<noteq> ret then (ret, DEVICE_LOG (LogTransferReturned ret) (perf_count s1))
         else (ret, s1))"

definition setPin :: "u8 \<Rightarrow> u16 \<Rightarrow> PCA9685 \<Rightarrow> int \<times> PCA9685" where
  "setPin num val0 s =
     (let val = (if val0 > 4095 then 4095 else val0)
      in if val = 4095 then setPWM num 4096 0 s
         else if val = 0 then setPWM num 0 4096 s
         else setPWM num 0 val s)"

text \<open>
  \<open>read8\<close> returns the return code and the byte the bus delivered; the byte means
  something only when the code is \<open>OK\<close>, and the caller reads it only then.
\<close>

definition read8 :: "u8 \<Rightarrow> PCA9685 \<Rightarrow> (int \<times> u8) \<times> PCA9685" where
  "read8 addr s =
     (let (r1, s1) = transfer [addr] 0 s
      in if fst r1 \<noteq> OK
         then ((fst r1, 0), DEVICE_LOG (LogTransferReturned (fst r1)) (perf_count s1))
         else let (r2, s2) = transfer [] 1 s1
              in if fst r2 \<noteq> OK
                 then ((fst r2, 0), DEVICE_LOG (LogTransferReturned (fst r2)) (perf_count s2))
                 else (r2, s2))"

definition write8 :: "u8 \<Rightarrow> u8 \<Rightarrow> PCA9685 \<Rightarrow> int \<times> PCA9685" where
  "write8 addr val s =
     (let m = (msg s)[0 := addr, 1 := val];
          (r, s1) = transfer (take 2 m) 0 (s\<lparr> msg := m \<rparr>);
          ret = fst r
      in if ret \<noteq> OK then (ret, DEVICE_LOG (LogTransferReturned ret) (perf_count s1))
         else (ret, s1))"

section \<open>Frequency configuration\<close>

text \<open>
  A step whose \<^verbatim>\<open>float\<close> to integer conversion has no value (see \<open>uint_of_f32\<close>) ends
  the call with this error: the program has no defined behaviour from there on.
\<close>

datatype error = Float_to_int_undefined

text \<open>
  The first five lines of \<^verbatim>\<open>setPWMFreq\<close>. The literal 25000000 is \<open>390625 * 2 ^ 6\<close>, a
  \<^verbatim>\<open>float\<close>; the divisions, the subtraction and the addition of \<^verbatim>\<open>0.5f\<close> each round.
\<close>

definition prescale_of :: "f32 \<Rightarrow> u8 option" where
  "prescale_of freq =
     (let prescaleval = Finite 25000000;
          prescaleval = f32_div prescaleval (Finite 4096);
          prescaleval = f32_div prescaleval freq;
          prescaleval = f32_sub prescaleval (Finite 1)
      in uint_of_f32 (f32_add prescaleval (Finite (1 / 2))))"

definition usleep :: "nat \<Rightarrow> PCA9685 \<Rightarrow> PCA9685" where
  "usleep us s = s\<lparr> trace := trace s @ [Usleep us] \<rparr>"

definition setPWMFreq :: "f32 \<Rightarrow> PCA9685 \<Rightarrow> error + int \<times> PCA9685" where
  "setPWMFreq freq s =
     (case prescale_of freq of
        None \<Rightarrow> Inl Float_to_int_undefined
      | Some prescale \<Rightarrow> Inr
         (let (r, s1) = read8 PCA9685_MODE1 s; oldmode = snd r
          in if fst r \<noteq> OK then (fst r, s1)
             else let newmode = (oldmode AND 0x7F) OR 0x10;
                      (ret, s2) = write8 PCA9685_MODE1 newmode s1
                  in if ret \<noteq> OK then (ret, s2)
                     else let (ret, s3) = write8 PCA9685_PRESCALE prescale s2
                          in if ret \<noteq> OK then (ret, s3)
                             else let (ret, s4) = write8 PCA9685_MODE1 oldmode s3
                                  in if ret \<noteq> OK then (ret, s4)
                                     else write8 PCA9685_MODE1 (oldmode OR 0xa1)
                                            (usleep 5000 s4)))"

section \<open>The control loop\<close>

text \<open>The duty computed for one channel, line 246.\<close>

definition new_value :: "u16 \<Rightarrow> u16 \<Rightarrow> u16 option" where
  "new_value period pw =
     uint_of_f32 (f32_mul (f32_div (f32_of_u16 period) (f32_of_u16 pw)) (Finite 4096))"

text \<open>The body of the channel loop of normal mode, lines 246 to 256.\<close>

definition RunImpl_channel :: "nat \<Rightarrow> PCA9685 \<Rightarrow> error + PCA9685" where
  "RunImpl_channel i s =
     (case new_value (pwm_period_us s) (pulse_width (pca_pwm s) ! i) of
        None \<Rightarrow> Inl Float_to_int_undefined
      | Some nv \<Rightarrow>
          let s1 = DEVICE_LOG (DebugChannel i (current_values s ! i) nv
                                 (pulse_width (pca_pwm s) ! i)) s
          in if nv \<noteq> current_values s1 ! i \<and> nv < 4096
             then let (ret, s2) = setPin (of_nat i) nv s1
                  in Inr (s2\<lparr> current_values := (current_values s2)[i := nv] \<rparr>)
             else if nv < 4096 then Inr (DEVICE_LOG (DebugOutOfRange nv) s1)
             else Inr s1)"

function RunImpl_channels :: "nat \<Rightarrow> PCA9685 \<Rightarrow> error + PCA9685" where
  "RunImpl_channels i s =
     (if i < NUMBER_PWM_CHANNELS
      then (case RunImpl_channel i s of
              Inl e \<Rightarrow> Inl e
            | Inr s' \<Rightarrow> RunImpl_channels (i + 1) s')
      else Inr s)"
  by pat_completeness auto
termination
  by (relation "measure (\<lambda>(i, s). NUMBER_PWM_CHANNELS - i)") auto

text \<open>The channel loop of test mode, lines 220 to 222.\<close>

function RunImpl_test_channels :: "nat \<Rightarrow> PCA9685 \<Rightarrow> PCA9685" where
  "RunImpl_test_channels i s =
     (if i < NUMBER_PWM_CHANNELS
      then RunImpl_test_channels (i + 1) (snd (setPin (of_nat i) (test_pwm s) s))
      else s)"
  by pat_completeness auto
termination
  by (relation "measure (\<lambda>(i, s). NUMBER_PWM_CHANNELS - i)") auto

declare RunImpl_channels.simps [simp del] RunImpl_test_channels.simps [simp del]

text \<open>The period update of normal mode, lines 238 to 244.\<close>

definition RunImpl_period :: "PCA9685 \<Rightarrow> PCA9685" where
  "RunImpl_period s =
     (if pwm_period_us s \<noteq> pwm_period (pca_pwm s) \<and>
         pwm_period (pca_pwm s) \<ge> PWM_PERIOD_MIN_US \<and>
         pwm_period (pca_pwm s) \<le> PWM_PERIOD_MAX_US
      then let s1 = s\<lparr> pwm_period_us := pwm_period (pca_pwm s) \<rparr>;
               s2 = s1\<lparr> pwm_freq := f32_div (Finite 1000000) (f32_of_u16 (pwm_period_us s1)) \<rparr>
           in DEVICE_LOG (DebugFreq (pwm_freq s2) (pwm_period_us s2)) s2
      else s)"

definition ScheduleDelayed_call :: "u64 \<Rightarrow> PCA9685 \<Rightarrow> PCA9685" where
  "ScheduleDelayed_call delay s = s\<lparr> trace := trace s @ [ScheduleDelayed delay] \<rparr>"

text \<open>
  One invocation of the control loop. \<open>sub\<close> is the handle \<^verbatim>\<open>orb_subscribe\<close> returns,
  \<open>fresh\<close> what \<^verbatim>\<open>orb_check\<close> and \<^verbatim>\<open>orb_copy\<close> deliver: \<open>None\<close> when nothing was
  published since the last copy, the published message otherwise.
\<close>

definition RunImpl :: "int \<Rightarrow> pca_pwm_s option \<Rightarrow> PCA9685 \<Rightarrow> error + PCA9685" where
  "RunImpl sub fresh s =
     (if mode s = IOX_MODE_TEST_OUT
      then let s1 = (if test_pwm s > 4096 then s\<lparr> test_pwm := 0 \<rparr> else s);
               s2 = RunImpl_test_channels 0 s1;
               s3 = s2\<lparr> test_pwm := test_pwm s2 + 409 \<rparr>
           in Inr (ScheduleDelayed_call (i2cpwm_interval s3) s3)
      else let s1 = (if \<not> mode_on_initialized s
                     then s\<lparr> pca_pwm_sub := sub,
                             trace := trace s @ [OrbSubscribe, OrbSetInterval ORB_SUB_UPDATE_PERIOD],
                             mode_on_initialized := True \<rparr>
                     else s);
               s2 = s1\<lparr> updated := (fresh \<noteq> None) \<rparr>
           in case fresh of
                None \<Rightarrow> Inr (ScheduleDelayed_call (i2cpwm_interval s2) s2)
              | Some m \<Rightarrow>
                  (case RunImpl_channels 0 (RunImpl_period (s2\<lparr> pca_pwm := m \<rparr>)) of
                     Inl e \<Rightarrow> Inl e
                   | Inr s3 \<Rightarrow> Inr (ScheduleDelayed_call (i2cpwm_interval s3) s3)))"

text \<open>The administrative commands: \<open>custom1 = 0\<close> resets the chip, after the warning
  that \<^verbatim>\<open>warnx\<close> prints; \<open>1\<close> enters test mode.\<close>

definition reset :: "PCA9685 \<Rightarrow> int \<times> PCA9685" where
  "reset s = write8 PCA9685_MODE1 0x0 (DEVICE_LOG WarnResetting s)"

definition custom_method :: "int \<Rightarrow> PCA9685 \<Rightarrow> PCA9685" where
  "custom_method custom1 s =
     (if custom1 = 0 then snd (reset s)
      else if custom1 = 1 then s\<lparr> mode := IOX_MODE_TEST_OUT \<rparr>
      else s)"

section \<open>Reference definitions\<close>

text \<open>
  The five bytes \<^verbatim>\<open>setPWM\<close> puts on the bus for a channel and a pair of ticks: the
  address of the channel's \<^verbatim>\<open>ON_L\<close> register, then the low and high bytes of \<open>on\<close> and
  of \<open>off\<close>.
\<close>

definition setPWM_frame :: "u8 \<Rightarrow> u16 \<Rightarrow> u16 \<Rightarrow> u8 list" where
  "setPWM_frame num on off =
     [word_of_int (LED0_ON_L + 4 * uint num),
      ucast on, ucast (drop_bit 8 on), ucast off, ucast (drop_bit 8 off)]"

text \<open>
  The encoder of the specification, in its words: clamp to \<open>[0, 4095]\<close>; 4095 is fully
  on (\<open>on = 4096\<close>, \<open>off = 0\<close>), 0 is fully off (\<open>on = 0\<close>, \<open>off = 4096\<close>), anything else
  is \<open>on = 0\<close>, \<open>off = value\<close>.
\<close>

definition spec_setPin_ticks :: "u16 \<Rightarrow> u16 \<times> u16" where
  "spec_setPin_ticks v =
     (let c = min v 4095
      in if c = 4095 then (4096, 0) else if c = 0 then (0, 4096) else (0, c))"

text \<open>Two buses for the examples: one on which every transfer succeeds, one on which
  every transfer fails with code \<open>- 1\<close>.\<close>

definition bus_ok :: "nat \<Rightarrow> int \<times> u8" where
  "bus_ok k = (OK, 0x21)"

definition bus_fail :: "nat \<Rightarrow> int \<times> u8" where
  "bus_fail k = (- 1, 0)"

text \<open>
  The register operations of \<^verbatim>\<open>setPWMFreq\<close> in the order of the specification, on a bus
  with the replies \<open>bus\<close> and for the prescaler byte \<open>prescale\<close>: read \<^verbatim>\<open>MODE1\<close> (the
  address goes out, then one byte comes in), write \<^verbatim>\<open>MODE1\<close> with the sleep bit, write
  the prescaler, restore \<^verbatim>\<open>MODE1\<close>, wait 5 ms, write \<^verbatim>\<open>MODE1\<close> with restart and
  auto-increment.
\<close>

definition setPWMFreq_sequence :: "(nat \<Rightarrow> int \<times> u8) \<Rightarrow> u8 \<Rightarrow> event list" where
  "setPWMFreq_sequence bus prescale =
     (let oldmode = snd (bus 1)
      in [Transfer [PCA9685_MODE1] 0 (fst (bus 0)),
          Transfer [] 1 (fst (bus 1)),
          Transfer [PCA9685_MODE1, (oldmode AND 0x7F) OR 0x10] 0 (fst (bus 2)),
          Transfer [PCA9685_PRESCALE, prescale] 0 (fst (bus 3)),
          Transfer [PCA9685_MODE1, oldmode] 0 (fst (bus 4)),
          Usleep 5000,
          Transfer [PCA9685_MODE1, oldmode OR 0xa1] 0 (fst (bus 5))])"

text \<open>A bus whose transfer number \<open>k\<close> (from 0) fails with code \<open>- 5\<close> and whose other
  transfers succeed.\<close>

definition bus_fail_at :: "nat \<Rightarrow> nat \<Rightarrow> int \<times> u8" where
  "bus_fail_at k j = (if j = k then (- 5, 0) else (OK, 0x21))"

text \<open>What a trace says: the frames that went out on the bus, and the delays passed to
  \<^verbatim>\<open>ScheduleDelayed\<close>, each in order.\<close>

fun sent :: "event list \<Rightarrow> u8 list list" where
  "sent [] = []"
| "sent (Transfer tx n r # es) = tx # sent es"
| "sent (e # es) = sent es"

fun scheduled :: "event list \<Rightarrow> u64 list" where
  "scheduled [] = []"
| "scheduled (ScheduleDelayed d # es) = d # scheduled es"
| "scheduled (e # es) = scheduled es"

text \<open>
  The channel update of the specification, for the period \<open>period\<close>, the pulse widths
  \<open>pws\<close> and the last-applied values \<open>cvs\<close>: the duty of channel \<open>i\<close> is applied when it
  differs from the last-applied value and is below 4096. \<open>channel_value\<close> is the
  last-applied value afterwards, \<open>channel_frames\<close> the frames that go out for the channel
  (one or none).
\<close>

definition channel_value :: "u16 \<Rightarrow> u16 list \<Rightarrow> u16 list \<Rightarrow> nat \<Rightarrow> u16" where
  "channel_value period pws cvs i =
     (case new_value period (pws ! i) of
        None \<Rightarrow> cvs ! i
      | Some nv \<Rightarrow> if nv \<noteq> cvs ! i \<and> nv < 4096 then nv else cvs ! i)"

definition channel_frames :: "u16 \<Rightarrow> u16 list \<Rightarrow> u16 list \<Rightarrow> nat \<Rightarrow> u8 list list" where
  "channel_frames period pws cvs i =
     (case new_value period (pws ! i) of
        None \<Rightarrow> []
      | Some nv \<Rightarrow>
          if nv \<noteq> cvs ! i \<and> nv < 4096
          then [setPWM_frame (of_nat i) (fst (spec_setPin_ticks nv)) (snd (spec_setPin_ticks nv))]
          else [])"

text \<open>The period rule of the specification: a commanded period is adopted when it differs
  from the current one and lies within \<open>[656, 41666]\<close> microseconds.\<close>

definition spec_period_accepted :: "u16 \<Rightarrow> u16 \<Rightarrow> bool" where
  "spec_period_accepted current commanded \<longleftrightarrow>
     commanded \<noteq> current \<and> 656 \<le> commanded \<and> commanded \<le> 41666"

text \<open>
  The duty of the specification, in its words:
  \<open>new_duty = round(period_us / pulse_width_us * 4096)\<close>, in exact arithmetic.
\<close>

definition spec_new_duty :: "u16 \<Rightarrow> u16 \<Rightarrow> int" where
  "spec_new_duty period pw = round (of_int (uint period) / of_int (uint pw) * (4096 :: rat))"


text \<open>A command for the examples: a period, the pulse width of channel 0 and the pulse
  width of the fifteen other channels.\<close>

definition example_cmd :: "u16 \<Rightarrow> u16 \<Rightarrow> u16 \<Rightarrow> pca_pwm_s" where
  "example_cmd period first others =
     \<lparr> pwm_period = period, pulse_width = first # replicate 15 others \<rparr>"

section \<open>Single-precision rounding\<close>

lemma pow2_powi: "pow2 k = 2 powi k"
  by (simp add: pow2_def power_int_def inverse_eq_divide power_one_over [symmetric])

lemma pow2_pos [simp]: "0 < pow2 k"
  by (simp add: pow2_powi)

lemma pow2_add: "pow2 (a + b) = pow2 a * pow2 b"
  by (simp add: pow2_powi power_int_add)

lemma pow2_nat: "0 \<le> k \<Longrightarrow> pow2 k = 2 ^ nat k"
  by (simp add: pow2_def)

lemma pow2_numeral: "pow2 (numeral n) = 2 ^ numeral n"
  by (simp add: pow2_def)

lemma pow2_0 [simp]: "pow2 0 = 1"
  by (simp add: pow2_def)

lemma pow2_mono: "a \<le> b \<Longrightarrow> pow2 a \<le> pow2 b"
  by (simp add: pow2_powi power_int_increasing)

lemma pow2_less_iff: "pow2 a < pow2 b \<longleftrightarrow> a < b"
proof
  assume "pow2 a < pow2 b"
  show "a < b"
  proof (rule ccontr)
    assume "\<not> a < b"
    then have "pow2 b \<le> pow2 a" by (simp add: pow2_mono)
    with \<open>pow2 a < pow2 b\<close> show False by simp
  qed
next
  assume "a < b"
  then show "pow2 a < pow2 b"
    by (simp add: pow2_powi power_int_strict_increasing)
qed

lemma ilog2_bounds:
  assumes "0 < a"
  shows "pow2 (ilog2 a) \<le> a" and "a < pow2 (ilog2 a + 1)"
proof -
  have "pow2 (ilog2 a) \<le> a \<and> a < pow2 (ilog2 a + 1)"
  proof (cases "1 \<le> a")
    case True
    define n where "n = \<lfloor>a\<rfloor>"
    from True have n1: "1 \<le> n" by (simp add: n_def le_floor_iff)
    then have n0: "0 < n" by simp
    from bitlen_bounds [OF n0] have lo: "2 ^ nat (bitlen n - 1) \<le> n" and hi: "n < 2 ^ nat (bitlen n)"
      by simp_all
    from n0 have b1: "1 \<le> bitlen n"
      using bitlen_eq_zero_iff [of n] bitlen_nonneg [of n] by linarith
    have il: "ilog2 a = bitlen n - 1" using True by (simp add: ilog2_def n_def)
    have "pow2 (bitlen n - 1) = of_int (2 ^ nat (bitlen n - 1))"
      using b1 by (simp add: pow2_nat)
    also have "\<dots> \<le> of_int n" using lo by (simp only: of_int_le_iff)
    also have "\<dots> \<le> a" by (simp add: n_def)
    finally have A: "pow2 (ilog2 a) \<le> a" by (simp add: il)
    from hi have "n + 1 \<le> 2 ^ nat (bitlen n)" by simp
    then have "(of_int (n + 1) :: rat) \<le> of_int (2 ^ nat (bitlen n))" by (simp only: of_int_le_iff)
    moreover have "a < of_int (n + 1)" unfolding n_def by linarith
    ultimately have "a < of_int (2 ^ nat (bitlen n))" by simp
    also have "\<dots> = pow2 (bitlen n)" using b1 by (simp add: pow2_nat)
    finally have B: "a < pow2 (ilog2 a + 1)" by (simp add: il)
    from A B show ?thesis ..
  next
    case False
    then have a1: "a < 1" by simp
    define m where "m = \<lceil>1 / a\<rceil> - 1"
    from assms a1 have "1 < 1 / a" by (simp add: field_simps)
    then have "1 < \<lceil>1 / a\<rceil>" by (simp add: less_ceiling_iff)
    then have m0: "0 < m" by (simp add: m_def)
    from bitlen_bounds [OF m0] have lo: "2 ^ nat (bitlen m - 1) \<le> m" and hi: "m < 2 ^ nat (bitlen m)"
      by simp_all
    from m0 have b1: "1 \<le> bitlen m"
      using bitlen_eq_zero_iff [of m] bitlen_nonneg [of m] by linarith
    have il: "ilog2 a = - bitlen m" using False by (simp add: ilog2_def m_def)
    have m_lt: "of_int m < 1 / a" by (simp add: m_def) linarith
    have m_ge: "1 / a \<le> of_int (m + 1)" by (simp add: m_def)
    from hi have "m + 1 \<le> 2 ^ nat (bitlen m)" by simp
    then have "(of_int (m + 1) :: rat) \<le> of_int (2 ^ nat (bitlen m))" by (simp only: of_int_le_iff)
    with m_ge have "1 / a \<le> 2 ^ nat (bitlen m)" by simp
    with assms have "1 / 2 ^ nat (bitlen m) \<le> a" by (simp add: field_simps)
    moreover have "pow2 (- bitlen m) = 1 / 2 ^ nat (bitlen m)"
      using b1 by (simp add: pow2_def)
    ultimately have A: "pow2 (ilog2 a) \<le> a" by (simp add: il)
    from lo have "(of_int (2 ^ nat (bitlen m - 1)) :: rat) \<le> of_int m" by (simp only: of_int_le_iff)
    then have "(2 ^ nat (bitlen m - 1) :: rat) \<le> of_int m" by simp
    from this m_lt have "2 ^ nat (bitlen m - 1) < 1 / a" by (rule le_less_trans)
    with assms have "a < 1 / 2 ^ nat (bitlen m - 1)" by (simp add: field_simps)
    moreover have "pow2 (- bitlen m + 1) = 1 / 2 ^ nat (bitlen m - 1)"
      using b1 by (cases "bitlen m = 1") (simp_all add: pow2_def)
    ultimately have B: "a < pow2 (ilog2 a + 1)" by (simp add: il)
    from A B show ?thesis ..
  qed
  then show "pow2 (ilog2 a) \<le> a" and "a < pow2 (ilog2 a + 1)" by simp_all
qed

lemma ilog2_less: "0 < a \<Longrightarrow> a < pow2 k \<Longrightarrow> ilog2 a < k"
  using ilog2_bounds(1) [of a] pow2_less_iff [of "ilog2 a" k] by simp

lemma ilog2_ge: "0 < a \<Longrightarrow> pow2 k \<le> a \<Longrightarrow> k \<le> ilog2 a"
  using ilog2_bounds(2) [of a] pow2_less_iff [of k "ilog2 a + 1"] by simp

lemma round_half_even_bounds:
  "\<bar>of_int (round_half_even q) - q\<bar> \<le> 1 / 2"
proof -
  have "of_int \<lfloor>q\<rfloor> \<le> q" "q < of_int \<lfloor>q\<rfloor> + 1" by linarith+
  then show ?thesis
    by (auto simp add: round_half_even_def Let_def abs_le_iff)
qed

lemma round_half_even_int [simp]: "round_half_even (of_int k) = k"
  by (simp add: round_half_even_def)

lemma round_half_even_le: "q \<le> of_int k \<Longrightarrow> round_half_even q \<le> k"
proof -
  assume "q \<le> of_int k"
  with round_half_even_bounds [of q] have "(of_int (round_half_even q) :: rat) < of_int k + 1"
    by linarith
  then have "(of_int (round_half_even q) :: rat) < of_int (k + 1)" by simp
  then have "round_half_even q < k + 1" by (simp only: of_int_less_iff)
  then show ?thesis by simp
qed

lemma round_half_even_ge: "of_int k \<le> q \<Longrightarrow> k \<le> round_half_even q"
proof -
  assume "of_int k \<le> q"
  with round_half_even_bounds [of q] have "(of_int k :: rat) - 1 < of_int (round_half_even q)"
    by linarith
  then have "(of_int (k - 1) :: rat) < of_int (round_half_even q)" by simp
  then have "k - 1 < round_half_even q" by (simp only: of_int_less_iff)
  then show ?thesis by simp
qed

lemma round32_normal:
  assumes a: "0 < a" and lo: "- 126 \<le> ilog2 a" and hi: "ilog2 a \<le> 126"
  shows "\<exists>k. round32 a = Finite (of_int k * pow2 (ilog2 a - 23))
           \<and> 2 ^ 23 \<le> k \<and> k \<le> 2 ^ 24
           \<and> \<bar>of_int k * pow2 (ilog2 a - 23) - a\<bar> \<le> pow2 (ilog2 a - 23) / 2"
proof -
  define e where "e = ilog2 a"
  define u where "u = pow2 (e - 23)"
  define k where "k = round_half_even (a / u)"
  have u0: "0 < u" by (simp add: u_def)
  have pe: "pow2 e = 2 ^ 23 * u"
    using pow2_add [of "e - 23" 23] by (simp add: u_def pow2_numeral)
  have pe1: "pow2 (e + 1) = 2 ^ 24 * u"
    using pow2_add [of "e - 23" 24] by (simp add: u_def pow2_numeral add.commute)
  from ilog2_bounds [OF a] have b: "2 ^ 23 * u \<le> a" "a < 2 ^ 24 * u"
    by (simp_all add: e_def [symmetric] pe pe1)
  from b(1) u0 have "of_int (2 ^ 23) \<le> a / u" by (simp add: field_simps)
  then have k_lo: "2 ^ 23 \<le> k" unfolding k_def by (rule round_half_even_ge)
  from b(2) u0 have "a / u \<le> of_int (2 ^ 24)" by (simp add: field_simps)
  then have k_hi: "k \<le> 2 ^ 24" unfolding k_def by (rule round_half_even_le)
  have "\<bar>of_int k * u - a\<bar> = u * \<bar>of_int k - a / u\<bar>"
    using u0 by (simp add: abs_mult [symmetric] field_simps)
  also have "\<dots> \<le> u * (1 / 2)"
    using u0 round_half_even_bounds [of "a / u"] by (intro mult_left_mono) (simp_all add: k_def)
  finally have err: "\<bar>of_int k * u - a\<bar> \<le> u / 2" by simp
  from k_hi have "(of_int k :: rat) \<le> of_int (2 ^ 24)" by (simp only: of_int_le_iff)
  then have "of_int k * u \<le> 2 ^ 24 * u" using u0 by simp
  also have "\<dots> = pow2 (e + 1)" by (simp add: pe1)
  also have "\<dots> \<le> pow2 127" using hi by (intro pow2_mono) (simp add: e_def)
  also have "\<dots> < 2 ^ 128" by (simp add: pow2_numeral)
  finally have fin: "\<not> 2 ^ 128 \<le> of_int k * u" by simp
  have "max (ilog2 a) (- 126) = e" using lo by (simp add: e_def)
  then have "round32 a = Finite (of_int k * u)"
    using a fin by (simp add: round32_def Let_def u_def [symmetric] k_def [symmetric])
  with k_lo k_hi err show ?thesis
    unfolding u_def e_def by blast
qed

lemma round32_exact:
  assumes k: "0 < k" "k < 2 ^ 24" and j: "- 149 \<le> j" "j \<le> 100"
  shows "round32 (of_int k * pow2 j) = Finite (of_int k * pow2 j)"
proof -
  define a where "a = of_int k * pow2 j"
  define e where "e = max (ilog2 a) (- 126)"
  define u where "u = pow2 (e - 23)"
  have a0: "0 < a" using k by (simp add: a_def)
  from k(2) have "(of_int k :: rat) < of_int (2 ^ 24)" by (simp only: of_int_less_iff)
  then have "a < 2 ^ 24 * pow2 j" by (simp add: a_def)
  also have "\<dots> = pow2 (j + 24)" using pow2_add [of j 24] by (simp add: pow2_numeral)
  finally have alt: "a < pow2 (j + 24)" .
  from ilog2_less [OF a0 alt] j have ej: "e - 23 \<le> j" by (simp add: e_def)
  have u0: "0 < u" by (simp add: u_def)
  have "pow2 j = pow2 (j - (e - 23)) * u"
    using pow2_add [of "j - (e - 23)" "e - 23"] by (simp add: u_def)
  also have "pow2 (j - (e - 23)) = 2 ^ nat (j - (e - 23))"
    using ej by (simp add: pow2_nat)
  finally have "a / u = of_int (k * 2 ^ nat (j - (e - 23)))"
    using u0 by (simp add: a_def)
  then have "round_half_even (a / u) = k * 2 ^ nat (j - (e - 23))"
    by (simp only: round_half_even_int)
  then have "of_int (round_half_even (a / u)) * u = a"
    using \<open>a / u = of_int (k * 2 ^ nat (j - (e - 23)))\<close> u0 by (simp add: field_simps)
  moreover have "a < 2 ^ 128"
  proof -
    have "pow2 (j + 24) \<le> pow2 124" using j by (intro pow2_mono) simp
    also have "\<dots> < 2 ^ 128" by (simp add: pow2_numeral)
    finally show ?thesis using alt by simp
  qed
  ultimately have "round32 a = Finite a"
    using a0 by (simp add: round32_def Let_def e_def [symmetric] u_def [symmetric])
  then show ?thesis by (simp add: a_def)
qed


section \<open>The duty of a channel\<close>

lemma new_value_zero_pulse: "new_value p 0 = None"
  by (simp add: new_value_def f32_of_u16_def)

lemma uint_u16_bounds:
  fixes w :: u16
  assumes "w \<noteq> 0"
  shows "1 \<le> uint w" and "uint w < 65536"
proof -
  have a: "0 \<le> uint w" by (rule uint_ge_0)
  from assms have b: "uint w \<noteq> 0" by (simp add: uint_0_iff)
  from a b show "1 \<le> uint w" by linarith
  from uint_lt2p [of w] show "uint w < 65536" by simp
qed

lemma u16_quotient:
  assumes w: "w \<noteq> 0"
  shows "\<exists>y. f32_div (f32_of_u16 p) (f32_of_u16 w) = Finite y \<and> 0 \<le> y \<and> y \<le> 65536
           \<and> f32_mul (Finite y) (Finite 4096) = Finite (y * 4096)"
proof (cases "p = 0")
  case True
  with w show ?thesis
    by (simp add: f32_of_u16_def round32_def unsigned_eq_0_iff)
next
  case False
  define P where "P = uint p"
  define W where "W = uint w"
  define x :: rat where "x = of_int P / of_int W"
  from False have P: "1 \<le> P" "P < 65536"
    unfolding P_def by (rule uint_u16_bounds)+
  from w have W: "1 \<le> W" "W < 65536"
    unfolding W_def by (rule uint_u16_bounds)+
  from P W have x0: "0 < x" by (simp add: x_def)
  have Prat: "(1 :: rat) \<le> of_int P" "(of_int P :: rat) < 65536"
    using P by (simp_all add: of_int_less_numeral_iff)
  have Wrat: "(1 :: rat) \<le> of_int W" "(of_int W :: rat) < 65536"
    using W by (simp_all add: of_int_less_numeral_iff)
  have xlo: "pow2 (- 16) \<le> x"
  proof -
    have "of_int W \<le> (65536 :: rat) * of_int P" using Prat Wrat by linarith
    then show ?thesis using Wrat by (simp add: x_def pow2_def field_simps)
  qed
  have xhi: "x < pow2 16"
  proof -
    have "of_int P < (65536 :: rat) * of_int W" using Prat Wrat by linarith
    then show ?thesis using Wrat by (simp add: x_def pow2_def field_simps)
  qed
  define e where "e = ilog2 x"
  from ilog2_ge [OF x0 xlo] ilog2_less [OF x0 xhi] have e: "- 16 \<le> e" "e \<le> 15"
    by (simp_all add: e_def)
  from round32_normal [of x] x0 e obtain k where
    r: "round32 x = Finite (of_int k * pow2 (e - 23))" and k: "2 ^ 23 \<le> k" "k \<le> 2 ^ 24"
    by (auto simp add: e_def)
  define y where "y = of_int k * pow2 (e - 23)"
  have div: "f32_div (f32_of_u16 p) (f32_of_u16 w) = Finite y"
    using W r by (simp add: f32_of_u16_def P_def [symmetric] W_def [symmetric] x_def [symmetric] y_def)
  have y0: "0 \<le> y"
  proof -
    from k(1) have "0 \<le> k" by simp
    then have "(0 :: rat) \<le> of_int k" by simp
    then show ?thesis unfolding y_def by (intro mult_nonneg_nonneg) (simp_all add: less_imp_le)
  qed
  have yhi: "y \<le> 65536"
  proof -
    from k(2) have "(of_int k :: rat) \<le> of_int (2 ^ 24)" by (simp only: of_int_le_iff)
    then have "y \<le> 2 ^ 24 * pow2 (e - 23)" by (simp add: y_def)
    also have "\<dots> = pow2 (e + 1)"
      using pow2_add [of "e - 23" 24] by (simp add: pow2_numeral add.commute)
    also have "\<dots> \<le> pow2 16" using e by (intro pow2_mono) simp
    finally show ?thesis by (simp add: pow2_numeral)
  qed
  have y4: "y * 4096 = of_int k * pow2 (e - 11)"
    using pow2_add [of "e - 23" 12] by (simp add: y_def pow2_numeral)
  have mul: "round32 (y * 4096) = Finite (y * 4096)"
  proof (cases "k = 2 ^ 24")
    case False
    with k have "0 < k" "k < 2 ^ 24" by simp_all
    from round32_exact [OF this, of "e - 11"] e show ?thesis by (simp add: y4)
  next
    case True
    have "y * 4096 = of_int 1 * pow2 (e + 13)"
      using pow2_add [of "e - 11" 24] by (simp add: y4 True pow2_numeral add.commute mult.commute)
    moreover have "round32 (of_int 1 * pow2 (e + 13)) = Finite (of_int 1 * pow2 (e + 13))"
      using e by (intro round32_exact) simp_all
    ultimately show ?thesis by simp
  qed
  from div y0 yhi mul show ?thesis by auto
qed

lemma new_value_Some:
  assumes w: "w \<noteq> 0"
  shows "\<exists>y. f32_div (f32_of_u16 p) (f32_of_u16 w) = Finite y \<and> 0 \<le> y \<and> y \<le> 65536
           \<and> new_value p w = Some (word_of_int \<lfloor>y * 4096\<rfloor>)"
proof -
  from u16_quotient [OF w, of p] obtain y where
    y: "f32_div (f32_of_u16 p) (f32_of_u16 w) = Finite y" "0 \<le> y" "y \<le> 65536"
    "f32_mul (Finite y) (Finite 4096) = Finite (y * 4096)" by blast
  from y(2) have f0: "0 \<le> \<lfloor>y * 4096\<rfloor>" by simp
  from y(3) have "y * 4096 < 2 ^ 31" by simp
  then have "\<lfloor>y * 4096\<rfloor> < 2 ^ 31" by (simp add: floor_less_iff)
  with f0 y have "new_value p w = Some (word_of_int \<lfloor>y * 4096\<rfloor>)"
    by (simp add: new_value_def trunc_def Let_def)
  with y show ?thesis by blast
qed

lemma new_value_None_iff: "new_value p w = None \<longleftrightarrow> w = 0"
proof (cases "w = 0")
  case True
  then show ?thesis by (simp add: new_value_zero_pulse)
next
  case False
  from new_value_Some [OF False, of p] False show ?thesis by auto
qed

lemma new_value_20000_30000: "new_value 20000 30000 = Some 2730"
  by code_simp

lemma new_value_20000_20000: "new_value 20000 20000 = Some 4096"
  by code_simp

lemma new_value_20000_1200: "new_value 20000 1200 = Some 2730"
  by code_simp

lemma quotient_20000_1200:
  "f32_mul (f32_div (f32_of_u16 20000) (f32_of_u16 1200)) (Finite 4096) = Finite (8738133 / 128)"
  by code_simp

section \<open>The bus primitives\<close>

lemma length6E:
  assumes "length m = 6"
  obtains x0 x1 x2 x3 x4 x5 where "m = [x0, x1, x2, x3, x4, x5]"
  using assms by (auto simp: eval_nat_numeral length_Suc_conv)

lemma take5_frame:
  assumes "length m = 6"
  shows "take 5 (m[0 := a, Suc 0 := b, 2 := c, 3 := d, 4 := e]) = [a, b, c, d, e]"
proof -
  from assms obtain x0 x1 x2 x3 x4 x5 where "m = [x0, x1, x2, x3, x4, x5]"
    by (rule length6E)
  then show ?thesis by (simp add: eval_nat_numeral)
qed

lemma take2_frame:
  assumes "length m = 6"
  shows "take 2 (m[0 := a, Suc 0 := b]) = [a, b]"
proof -
  from assms obtain x0 x1 x2 x3 x4 x5 where "m = [x0, x1, x2, x3, x4, x5]"
    by (rule length6E)
  then show ?thesis by (simp add: eval_nat_numeral)
qed

lemma ctor_fields:
  "mode (PCA9685_ctor r b) = IOX_MODE_ON"
  "comms_errors (PCA9685_ctor r b) = 0"
  "msg (PCA9685_ctor r b) = replicate 6 0"
  "pwm_period_us (PCA9685_ctor r b) = 20000"
  "pwm_freq (PCA9685_ctor r b) = Finite 50"
  "test_pwm (PCA9685_ctor r b) = 0"
  "current_values (PCA9685_ctor r b) = replicate NUMBER_PWM_CHANNELS 0"
  "mode_on_initialized (PCA9685_ctor r b) = False"
  "i2c_replies (PCA9685_ctor r b) = b"
  "trace (PCA9685_ctor r b) = []"
  "console (PCA9685_ctor r b) = []"
  by (simp_all add: PCA9685_ctor_def)

lemma ctor_interval: "i2cpwm_interval (PCA9685_ctor r b) = word_of_int (uint r)"
proof -
  have "0 \<le> uint r" by (rule uint_ge_0)
  moreover from uint_lt2p [of r] have "uint r < 2 ^ 31" by simp
  ultimately show ?thesis
    by (simp add: PCA9685_ctor_def f32_of_u16_def trunc_def Let_def del: of_int_uint)
qed

lemma ctor_lengths:
  "length (current_values (PCA9685_ctor r b)) = NUMBER_PWM_CHANNELS"
  "length (msg (PCA9685_ctor r b)) = 6"
  by (simp_all add: ctor_fields)

lemma ctor_values:
  "current_values (PCA9685_ctor r b) = [0, 0, 0, 0, 0, 0, 0, 0, 0, 0, 0, 0, 0, 0, 0, 0]"
  by (simp add: PCA9685_ctor_def NUMBER_PWM_CHANNELS_def eval_nat_numeral)

lemma sent_append: "sent (xs @ ys) = sent xs @ sent ys"
  by (induction xs rule: sent.induct) simp_all

lemma scheduled_append: "scheduled (xs @ ys) = scheduled xs @ scheduled ys"
  by (induction xs rule: scheduled.induct) simp_all

text \<open>\<^verbatim>\<open>setPWM\<close> as one update of the state: one transfer, counted and logged when it
  fails.\<close>

lemma setPWM_eq:
  "setPWM num on off s =
     (fst (i2c_replies s 0),
      s\<lparr> comms_errors := (if fst (i2c_replies s 0) = OK then comms_errors s else comms_errors s + 1),
         msg := (msg s)[0 := word_of_int (LED0_ON_L + 4 * uint num), 1 := ucast on,
                        2 := ucast (drop_bit 8 on), 3 := ucast off, 4 := ucast (drop_bit 8 off)],
         i2c_replies := (\<lambda>k. i2c_replies s (k + 1)),
         trace := trace s @ [Transfer (take 5 ((msg s)[0 := word_of_int (LED0_ON_L + 4 * uint num), 1 := ucast on,
                        2 := ucast (drop_bit 8 on), 3 := ucast off, 4 := ucast (drop_bit 8 off)])) 0 (fst (i2c_replies s 0))],
         console := (if fst (i2c_replies s 0) = OK then console s
                     else console s @ [LogTransferReturned (fst (i2c_replies s 0))]) \<rparr>)"
  by (simp add: setPWM_def transfer_def perf_count_def DEVICE_LOG_def Let_def)

lemma setPWM_trace:
  "length (msg s) = 6 \<Longrightarrow>
   trace (snd (setPWM num on off s)) =
     trace s @ [Transfer (setPWM_frame num on off) 0 (fst (i2c_replies s 0))]"
  by (simp add: setPWM_eq take5_frame setPWM_frame_def)

lemma setPin_spec:
  "setPin num val s = setPWM num (fst (spec_setPin_ticks val)) (snd (spec_setPin_ticks val)) s"
  by (auto simp add: setPin_def spec_setPin_ticks_def Let_def min_def)

lemma setPin_eq:
  "setPin num val s =
     (fst (i2c_replies s 0),
      s\<lparr> comms_errors := (if fst (i2c_replies s 0) = OK then comms_errors s else comms_errors s + 1),
         msg := (msg s)[0 := word_of_int (LED0_ON_L + 4 * uint num),
                        1 := ucast (fst (spec_setPin_ticks val)),
                        2 := ucast (drop_bit 8 (fst (spec_setPin_ticks val))),
                        3 := ucast (snd (spec_setPin_ticks val)),
                        4 := ucast (drop_bit 8 (snd (spec_setPin_ticks val)))],
         i2c_replies := (\<lambda>k. i2c_replies s (k + 1)),
         trace := trace s @ [Transfer (take 5 ((msg s)[0 := word_of_int (LED0_ON_L + 4 * uint num),
                        1 := ucast (fst (spec_setPin_ticks val)),
                        2 := ucast (drop_bit 8 (fst (spec_setPin_ticks val))),
                        3 := ucast (snd (spec_setPin_ticks val)),
                        4 := ucast (drop_bit 8 (snd (spec_setPin_ticks val)))])) 0 (fst (i2c_replies s 0))],
         console := (if fst (i2c_replies s 0) = OK then console s
                     else console s @ [LogTransferReturned (fst (i2c_replies s 0))]) \<rparr>)"
  by (simp only: setPin_spec setPWM_eq)

lemma write8_eq:
  "write8 addr val s =
     (fst (i2c_replies s 0),
      s\<lparr> comms_errors := (if fst (i2c_replies s 0) = OK then comms_errors s else comms_errors s + 1),
         msg := (msg s)[0 := addr, 1 := val],
         i2c_replies := (\<lambda>k. i2c_replies s (k + 1)),
         trace := trace s @ [Transfer (take 2 ((msg s)[0 := addr, 1 := val])) 0 (fst (i2c_replies s 0))],
         console := (if fst (i2c_replies s 0) = OK then console s
                     else console s @ [LogTransferReturned (fst (i2c_replies s 0))]) \<rparr>)"
  by (simp add: write8_def transfer_def perf_count_def DEVICE_LOG_def Let_def)

lemma read8_eq:
  "read8 addr s =
     (if fst (i2c_replies s 0) \<noteq> OK
      then ((fst (i2c_replies s 0), 0),
            s\<lparr> comms_errors := comms_errors s + 1,
               i2c_replies := (\<lambda>k. i2c_replies s (k + 1)),
               trace := trace s @ [Transfer [addr] 0 (fst (i2c_replies s 0))],
               console := console s @ [LogTransferReturned (fst (i2c_replies s 0))] \<rparr>)
      else if fst (i2c_replies s 1) \<noteq> OK
      then ((fst (i2c_replies s 1), 0),
            s\<lparr> comms_errors := comms_errors s + 1,
               i2c_replies := (\<lambda>k. i2c_replies s (k + 2)),
               trace := trace s @ [Transfer [addr] 0 (fst (i2c_replies s 0)),
                                   Transfer [] 1 (fst (i2c_replies s 1))],
               console := console s @ [LogTransferReturned (fst (i2c_replies s 1))] \<rparr>)
      else (i2c_replies s 1,
            s\<lparr> i2c_replies := (\<lambda>k. i2c_replies s (k + 2)),
               trace := trace s @ [Transfer [addr] 0 (fst (i2c_replies s 0)),
                                   Transfer [] 1 (fst (i2c_replies s 1))] \<rparr>))"
  by (simp add: read8_def transfer_def perf_count_def DEVICE_LOG_def Let_def)

section \<open>The channel output encoder\<close>

text \<open>
  C5. For every channel number and every input value, \<^verbatim>\<open>setPin\<close> clamps the value to
  \<open>[0, 4095]\<close>; a clamped 4095 gives the fully-on pair \<open>on = 4096\<close>, \<open>off = 0\<close>, a 0 gives
  the fully-off pair \<open>on = 0\<close>, \<open>off = 4096\<close>, any other value \<open>v\<close> gives \<open>on = 0\<close>,
  \<open>off = v\<close> (the pair \<open>spec_setPin_ticks\<close>); the pair goes out as one \<^verbatim>\<open>setPWM\<close> call,
  that is one transfer of the five-byte frame, whose return code \<^verbatim>\<open>setPin\<close> returns.
\<close>

theorem setPin_encoding:
  assumes "length (msg s) = 6"
  shows "setPin num val s = setPWM num (fst (spec_setPin_ticks val)) (snd (spec_setPin_ticks val)) s
       \<and> fst (setPin num val s) = fst (i2c_replies s 0)
       \<and> trace (snd (setPin num val s)) =
           trace s @ [Transfer (setPWM_frame num (fst (spec_setPin_ticks val))
                                  (snd (spec_setPin_ticks val))) 0 (fst (i2c_replies s 0))]"
  using assms by (simp add: setPin_spec setPWM_trace) (simp add: setPWM_eq)

theorem setPin_encoding_witness:
  "length (msg (PCA9685_ctor 20000 bus_ok)) = 6
   \<and> spec_setPin_ticks 5000 = (4096, 0)
   \<and> trace (snd (setPin 3 5000 (PCA9685_ctor 20000 bus_ok))) = [Transfer [18, 0, 16, 0, 0] 0 0]"
proof -
  have len: "length (msg (PCA9685_ctor 20000 bus_ok)) = 6"
    by (simp add: ctor_fields)
  have ticks: "spec_setPin_ticks 5000 = (4096, 0)"
    by (simp add: spec_setPin_ticks_def)
  from setPin_encoding [OF len, of 3 5000, THEN conjunct2, THEN conjunct2] show ?thesis
    by (simp add: len ticks ctor_fields setPWM_frame_def bus_ok_def OK_def LED0_ON_L_def)
qed

lemma spec_ticks_plain:
  assumes "0 < v" and "v \<le> 4094"
  shows "spec_setPin_ticks v = (0, v)"
proof -
  have "(4094 :: u16) < 4095" by simp
  with assms(2) have lt: "v < 4095" by (rule le_less_trans)
  then have "v \<le> 4095" by (rule less_imp_le)
  then have m: "min v 4095 = v" by (rule min_absorb1)
  from lt have "v \<noteq> 4095" by (rule less_imp_neq)
  moreover from assms(1) have "v \<noteq> 0" by (rule less_imp_neq [symmetric])
  ultimately show ?thesis
    by (simp add: spec_setPin_ticks_def Let_def m)
qed

text \<open>
  C6, amended. For every duty value \<open>v\<close> in \<open>[1, 4094]\<close>, \<^verbatim>\<open>setPin\<close> produces the pair
  \<open>on = 0\<close>, \<open>off = v\<close>. (The value 0 is the fully-off case: \<open>on = 0\<close>, \<open>off = 4096\<close>.)
\<close>

theorem setPin_plain_duty:
  assumes "length (msg s) = 6" and "0 < v" and "v \<le> 4094"
  shows "setPin num v s = setPWM num 0 v s
       \<and> trace (snd (setPin num v s)) =
           trace s @ [Transfer (setPWM_frame num 0 v) 0 (fst (i2c_replies s 0))]"
  using assms by (simp add: setPin_spec spec_ticks_plain setPWM_trace)

theorem setPin_plain_duty_witness:
  "length (msg (PCA9685_ctor 20000 bus_ok)) = 6 \<and> (0 :: u16) < 2730 \<and> (2730 :: u16) \<le> 4094
   \<and> trace (snd (setPin 0 2730 (PCA9685_ctor 20000 bus_ok))) = [Transfer [6, 0, 0, 170, 10] 0 0]"
proof -
  have len: "length (msg (PCA9685_ctor 20000 bus_ok)) = 6"
    by (simp add: ctor_fields)
  from setPin_plain_duty [OF len, of 2730 0, THEN conjunct2] show ?thesis
    by (simp add: len ctor_fields setPWM_frame_def bus_ok_def OK_def LED0_ON_L_def)
qed

text \<open>
  C6 as stated fails at \<open>v = 0\<close>: the frame \<^verbatim>\<open>setPin\<close> sends for channel 0 carries
  \<open>off = 4096\<close> (bytes \<open>0, 16\<close>), not \<open>off = 0\<close>.
\<close>

theorem setPin_zero_counterexample:
  "trace (snd (setPin 0 0 (PCA9685_ctor 20000 bus_ok))) = [Transfer (setPWM_frame 0 0 4096) 0 0]
   \<and> setPWM_frame 0 0 4096 = [6, 0, 0, 0, 16]
   \<and> setPWM_frame 0 0 0 = [6, 0, 0, 0, 0]
   \<and> trace (snd (setPin 0 0 (PCA9685_ctor 20000 bus_ok))) \<noteq> [Transfer (setPWM_frame 0 0 0) 0 0]"
  by (simp add: setPin_spec setPWM_trace ctor_fields spec_setPin_ticks_def setPWM_frame_def
      bus_ok_def OK_def LED0_ON_L_def)

section \<open>The frequency configurator\<close>




lemma prescale_50: "prescale_of (Finite 50) = Some 121"
  by code_simp


lemma setPWMFreq_fails_at:
  assumes p: "prescale_of freq = Some p"
    and len: "length (msg s) = 6"
    and k: "k < 6"
    and ok: "\<forall>j<k. fst (i2c_replies s j) = OK"
    and bad: "fst (i2c_replies s k) \<noteq> OK"
  shows "\<exists>s'. setPWMFreq freq s = Inr (fst (i2c_replies s k), s')
            \<and> comms_errors s' = comms_errors s + 1
            \<and> trace s' = trace s @ take (if k = 5 then 7 else k + 1) (setPWMFreq_sequence (i2c_replies s) p)"
proof -
  from k consider "k = 0" | "k = 1" | "k = 2" | "k = 3" | "k = 4" | "k = 5" by linarith
  then show ?thesis
  proof cases
    case 1
    with bad show ?thesis
      by (simp add: setPWMFreq_def p read8_eq setPWMFreq_sequence_def Let_def numeral_2_eq_2 [symmetric])
  next
    case 2
    with ok bad have "fst (i2c_replies s 0) = OK" "fst (i2c_replies s 1) \<noteq> OK" by simp_all
    then show ?thesis using 2
      by (simp add: setPWMFreq_def p read8_eq setPWMFreq_sequence_def Let_def numeral_2_eq_2 [symmetric])
  next
    case 3
    with ok bad have "fst (i2c_replies s 0) = OK" "fst (i2c_replies s 1) = OK"
      "fst (i2c_replies s 2) \<noteq> OK" by simp_all
    then show ?thesis using 3 len
      by (simp add: setPWMFreq_def p read8_eq write8_eq take2_frame setPWMFreq_sequence_def Let_def numeral_2_eq_2 [symmetric])
  next
    case 4
    with ok bad have "fst (i2c_replies s 0) = OK" "fst (i2c_replies s 1) = OK"
      "fst (i2c_replies s 2) = OK" "fst (i2c_replies s 3) \<noteq> OK" by simp_all
    then show ?thesis using 4 len
      by (simp add: setPWMFreq_def p read8_eq write8_eq take2_frame setPWMFreq_sequence_def Let_def numeral_2_eq_2 [symmetric])
  next
    case 5
    with ok bad have "fst (i2c_replies s 0) = OK" "fst (i2c_replies s 1) = OK"
      "fst (i2c_replies s 2) = OK" "fst (i2c_replies s 3) = OK" "fst (i2c_replies s 4) \<noteq> OK" by simp_all
    then show ?thesis using 5 len
      by (simp add: setPWMFreq_def p read8_eq write8_eq take2_frame setPWMFreq_sequence_def Let_def numeral_2_eq_2 [symmetric])
  next
    case 6
    with ok bad have "fst (i2c_replies s 0) = OK" "fst (i2c_replies s 1) = OK"
      "fst (i2c_replies s 2) = OK" "fst (i2c_replies s 3) = OK" "fst (i2c_replies s 4) = OK"
      "fst (i2c_replies s 5) \<noteq> OK" by simp_all
    then show ?thesis using 6 len
      by (simp add: setPWMFreq_def p read8_eq write8_eq take2_frame setPWMFreq_sequence_def usleep_def Let_def numeral_2_eq_2 [symmetric])
  qed
qed






lemma prescale_off_grid:
  "prescale_of (Finite (5882353 / 8192)) = Some 8
   \<and> \<lfloor>(25000000 :: rat) / 4096 / (5882353 / 8192) + 1 / 2\<rfloor> - 1 = 7"
  by code_simp




text \<open>
  C8. When a transfer of the frequency-configuration sequence fails, \<^verbatim>\<open>setPWMFreq\<close>
  stops there: with \<open>k\<close> the first of its six transfers that the bus rejects, the call
  returns that transfer's code, the error counter has grown by exactly one, and the events
  of the call are the sequence up to and including transfer \<open>k\<close>, nothing after it.
\<close>

theorem setPWMFreq_aborts:
  assumes "prescale_of freq = Some p"
    and "length (msg s) = 6"
    and "k < 6"
    and "\<forall>j<k. fst (i2c_replies s j) = OK"
    and "fst (i2c_replies s k) \<noteq> OK"
  shows "\<exists>s'. setPWMFreq freq s = Inr (fst (i2c_replies s k), s')
            \<and> comms_errors s' = comms_errors s + 1
            \<and> trace s' = trace s @ take (if k = 5 then 7 else k + 1) (setPWMFreq_sequence (i2c_replies s) p)"
  using assms by (rule setPWMFreq_fails_at)

theorem setPWMFreq_aborts_witness:
  "prescale_of (Finite 50) = Some 121
   \<and> length (msg (PCA9685_ctor 20000 (bus_fail_at 3))) = 6
   \<and> (3::nat) < 6
   \<and> fst (bus_fail_at 3 0) = OK \<and> fst (bus_fail_at 3 1) = OK \<and> fst (bus_fail_at 3 2) = OK
   \<and> fst (bus_fail_at 3 3) \<noteq> OK
   \<and> (\<exists>s'. setPWMFreq (Finite 50) (PCA9685_ctor 20000 (bus_fail_at 3)) = Inr (- 5, s')
          \<and> comms_errors s' = 1
          \<and> trace s' = [Transfer [0] 0 0, Transfer [] 1 0, Transfer [0, 0x31] 0 0,
                         Transfer [0xFE, 121] 0 (- 5)])"
proof -
  let ?s = "PCA9685_ctor 20000 (bus_fail_at 3)"
  have len: "length (msg ?s) = 6" by (simp add: ctor_fields)
  have ok: "\<forall>j<3. fst (i2c_replies ?s j) = OK"
    by (simp add: ctor_fields bus_fail_at_def)
  have bad: "fst (i2c_replies ?s 3) \<noteq> OK"
    by (simp add: ctor_fields bus_fail_at_def OK_def)
  from setPWMFreq_aborts [OF prescale_50 len _ ok bad] show ?thesis
    by (simp add: prescale_50 ctor_fields bus_fail_at_def OK_def setPWMFreq_sequence_def
        PCA9685_MODE1_def PCA9685_PRESCALE_def)
qed

section \<open>The channel loops\<close>

text \<open>One channel of the loop whose duty has a value.\<close>

lemma RunImpl_channel_Some:
  assumes nv: "new_value (pwm_period_us s) (pulse_width (pca_pwm s) ! i) = Some nv"
    and len: "length (msg s) = 6"
  shows "\<exists>s'. RunImpl_channel i s = Inr s'
     \<and> pwm_period_us s' = pwm_period_us s \<and> pca_pwm s' = pca_pwm s
     \<and> i2cpwm_interval s' = i2cpwm_interval s \<and> mode s' = mode s \<and> pwm_freq s' = pwm_freq s
     \<and> test_pwm s' = test_pwm s
     \<and> length (msg s') = 6
     \<and> current_values s' =
          (current_values s)[i := channel_value (pwm_period_us s) (pulse_width (pca_pwm s)) (current_values s) i]
     \<and> sent (trace s') = sent (trace s) @
          channel_frames (pwm_period_us s) (pulse_width (pca_pwm s)) (current_values s) i
     \<and> scheduled (trace s') = scheduled (trace s)"
  using nv len
  by (simp add: RunImpl_channel_def DEVICE_LOG_def setPin_eq channel_value_def channel_frames_def
      sent_append scheduled_append take5_frame setPWM_frame_def Let_def)

lemma RunImpl_channel_None:
  "new_value (pwm_period_us s) (pulse_width (pca_pwm s) ! i) = None \<Longrightarrow>
   RunImpl_channel i s = Inl Float_to_int_undefined"
  by (simp add: RunImpl_channel_def)

text \<open>
  A duty that is not applied changes nothing but the console. The out-of-range message
  sits in the branch of the duties below 4096, so it is printed for a duty equal to the
  last-applied value and never for a duty of 4096 or more.
\<close>

lemma RunImpl_channel_not_applied:
  assumes nv: "new_value (pwm_period_us s) (pulse_width (pca_pwm s) ! i) = Some nv"
    and no: "nv = current_values s ! i \<or> 4096 \<le> nv"
  shows "RunImpl_channel i s =
     Inr (s\<lparr> console := console s @
            DebugChannel i (current_values s ! i) nv (pulse_width (pca_pwm s) ! i) #
            (if nv < 4096 then [DebugOutOfRange nv] else []) \<rparr>)"
  using nv no
  by (auto simp add: RunImpl_channel_def DEVICE_LOG_def Let_def not_less)

lemma channel_value_update:
  "i < j \<Longrightarrow> channel_value p pws (cvs[i := v]) j = channel_value p pws cvs j"
  by (simp add: channel_value_def split: option.split)

lemma channel_frames_update:
  "i < j \<Longrightarrow> channel_frames p pws (cvs[i := v]) j = channel_frames p pws cvs j"
  by (simp add: channel_frames_def split: option.split)

lemma channel_settled:
  assumes "cvs' ! i = channel_value p pws cvs i"
  shows "channel_value p pws cvs' i = cvs' ! i" and "channel_frames p pws cvs' i = []"
  using assms by (auto simp add: channel_value_def channel_frames_def split: option.splits if_splits)

lemma RunImpl_channels_result:
  assumes "i \<le> NUMBER_PWM_CHANNELS"
    and "length (current_values s) = NUMBER_PWM_CHANNELS"
    and "length (msg s) = 6"
    and "\<forall>j. i \<le> j \<and> j < NUMBER_PWM_CHANNELS \<longrightarrow>
           new_value (pwm_period_us s) (pulse_width (pca_pwm s) ! j) \<noteq> None"
  shows "\<exists>s'. RunImpl_channels i s = Inr s'
     \<and> pwm_period_us s' = pwm_period_us s \<and> pca_pwm s' = pca_pwm s
     \<and> i2cpwm_interval s' = i2cpwm_interval s \<and> mode s' = mode s \<and> pwm_freq s' = pwm_freq s
     \<and> test_pwm s' = test_pwm s
     \<and> length (msg s') = 6
     \<and> current_values s' =
          take i (current_values s) @
          map (channel_value (pwm_period_us s) (pulse_width (pca_pwm s)) (current_values s))
              [i..<NUMBER_PWM_CHANNELS]
     \<and> sent (trace s') = sent (trace s) @
          concat (map (channel_frames (pwm_period_us s) (pulse_width (pca_pwm s)) (current_values s))
                      [i..<NUMBER_PWM_CHANNELS])
     \<and> scheduled (trace s') = scheduled (trace s)"
  using assms
proof (induction i s rule: RunImpl_channels.induct)
  case (1 i s)
  show ?case
  proof (cases "i < NUMBER_PWM_CHANNELS")
    case False
    then have "RunImpl_channels i s = Inr s"
      by (simp add: RunImpl_channels.simps [of i s])
    with False "1.prems" show ?thesis by simp
  next
    case True
    let ?p = "pwm_period_us s" and ?pws = "pulse_width (pca_pwm s)" and ?cvs = "current_values s"
    from True "1.prems" obtain nv where nv: "new_value ?p (?pws ! i) = Some nv" by auto
    from RunImpl_channel_Some [OF nv "1.prems"(3)] obtain s1 where
      s1: "RunImpl_channel i s = Inr s1"
      and keep: "pwm_period_us s1 = ?p" "pca_pwm s1 = pca_pwm s"
        "i2cpwm_interval s1 = i2cpwm_interval s" "mode s1 = mode s" "pwm_freq s1 = pwm_freq s"
        "test_pwm s1 = test_pwm s" "length (msg s1) = 6"
      and cv1: "current_values s1 = ?cvs[i := channel_value ?p ?pws ?cvs i]"
      and tr1: "sent (trace s1) = sent (trace s) @ channel_frames ?p ?pws ?cvs i"
      and sc1: "scheduled (trace s1) = scheduled (trace s)"
      by blast
    have prem4: "\<forall>j. i + 1 \<le> j \<and> j < NUMBER_PWM_CHANNELS \<longrightarrow>
           new_value (pwm_period_us s1) (pulse_width (pca_pwm s1) ! j) \<noteq> None"
      using "1.prems"(4) keep by simp
    from "1.IH" [OF True s1 _ _ keep(7) prem4] True "1.prems"(2) cv1
    obtain s' where
      s': "RunImpl_channels (i + 1) s1 = Inr s'"
      and keep': "pwm_period_us s' = pwm_period_us s1" "pca_pwm s' = pca_pwm s1"
        "i2cpwm_interval s' = i2cpwm_interval s1" "mode s' = mode s1" "pwm_freq s' = pwm_freq s1"
        "test_pwm s' = test_pwm s1" "length (msg s') = 6"
      and cv': "current_values s' = take (i + 1) (current_values s1) @
          map (channel_value (pwm_period_us s1) (pulse_width (pca_pwm s1)) (current_values s1))
              [i + 1..<NUMBER_PWM_CHANNELS]"
      and tr': "sent (trace s') = sent (trace s1) @
          concat (map (channel_frames (pwm_period_us s1) (pulse_width (pca_pwm s1)) (current_values s1))
                      [i + 1..<NUMBER_PWM_CHANNELS])"
      and sc': "scheduled (trace s') = scheduled (trace s1)"
      by auto
    have run: "RunImpl_channels i s = Inr s'"
      using True s1 s' by (simp add: RunImpl_channels.simps [of i s])
    have upt: "[i..<NUMBER_PWM_CHANNELS] = i # [Suc i..<NUMBER_PWM_CHANNELS]"
      using True by (simp add: upt_conv_Cons)
    have mapv: "map (channel_value ?p ?pws (?cvs[i := v])) [Suc i..<NUMBER_PWM_CHANNELS]
        = map (channel_value ?p ?pws ?cvs) [Suc i..<NUMBER_PWM_CHANNELS]" for v
      by (simp add: channel_value_update)
    have mapf: "map (channel_frames ?p ?pws (?cvs[i := v])) [Suc i..<NUMBER_PWM_CHANNELS]
        = map (channel_frames ?p ?pws ?cvs) [Suc i..<NUMBER_PWM_CHANNELS]" for v
      by (simp add: channel_frames_update)
    have tk: "take (Suc i) (?cvs[i := v]) = take i ?cvs @ [v]" for v
      using True "1.prems"(2) by (simp add: take_Suc_conv_app_nth)
    show ?thesis
      using run keep keep' cv' tr' sc' cv1 tr1 sc1
      by (simp add: upt mapv mapf tk)
  qed
qed

lemma RunImpl_channels_undefined:
  assumes "i \<le> j" and "j < NUMBER_PWM_CHANNELS"
    and "new_value (pwm_period_us s) (pulse_width (pca_pwm s) ! j) = None"
    and "length (msg s) = 6"
  shows "RunImpl_channels i s = Inl Float_to_int_undefined"
  using assms
proof (induction i s rule: RunImpl_channels.induct)
  case (1 i s)
  from "1.prems" have lt: "i < NUMBER_PWM_CHANNELS" by simp
  show ?case
  proof (cases "new_value (pwm_period_us s) (pulse_width (pca_pwm s) ! i)")
    case None
    then show ?thesis
      using lt by (simp add: RunImpl_channels.simps [of i s] RunImpl_channel_None)
  next
    case (Some nv)
    with "1.prems" have "i \<noteq> j" by auto
    with "1.prems" have ij: "i + 1 \<le> j" by simp
    from RunImpl_channel_Some [OF Some "1.prems"(4)] obtain s1 where
      s1: "RunImpl_channel i s = Inr s1"
      and keep: "pwm_period_us s1 = pwm_period_us s" "pca_pwm s1 = pca_pwm s" "length (msg s1) = 6"
      by blast
    from "1.IH" [OF lt s1 ij "1.prems"(2) _ keep(3)] "1.prems"(3) keep
    have "RunImpl_channels (i + 1) s1 = Inl Float_to_int_undefined" by simp
    then show ?thesis
      using lt s1 by (simp add: RunImpl_channels.simps [of i s])
  qed
qed

lemma RunImpl_test_channels_result:
  assumes "i \<le> NUMBER_PWM_CHANNELS" and "length (msg s) = 6"
  shows "pwm_period_us (RunImpl_test_channels i s) = pwm_period_us s
     \<and> pca_pwm (RunImpl_test_channels i s) = pca_pwm s
     \<and> i2cpwm_interval (RunImpl_test_channels i s) = i2cpwm_interval s
     \<and> mode (RunImpl_test_channels i s) = mode s
     \<and> pwm_freq (RunImpl_test_channels i s) = pwm_freq s
     \<and> test_pwm (RunImpl_test_channels i s) = test_pwm s
     \<and> current_values (RunImpl_test_channels i s) = current_values s
     \<and> length (msg (RunImpl_test_channels i s)) = 6
     \<and> sent (trace (RunImpl_test_channels i s)) = sent (trace s) @
          map (\<lambda>k. setPWM_frame (of_nat k) (fst (spec_setPin_ticks (test_pwm s)))
                     (snd (spec_setPin_ticks (test_pwm s)))) [i..<NUMBER_PWM_CHANNELS]
     \<and> scheduled (trace (RunImpl_test_channels i s)) = scheduled (trace s)"
  using assms
proof (induction i s rule: RunImpl_test_channels.induct)
  case (1 i s)
  show ?case
  proof (cases "i < NUMBER_PWM_CHANNELS")
    case False
    then have "RunImpl_test_channels i s = s"
      by (simp add: RunImpl_test_channels.simps [of i s])
    with False "1.prems" show ?thesis by simp
  next
    case True
    let ?s1 = "snd (setPin (of_nat i) (test_pwm s) s)"
    have len1: "length (msg ?s1) = 6" using "1.prems" by (simp add: setPin_eq)
    have upt: "[i..<NUMBER_PWM_CHANNELS] = i # [Suc i..<NUMBER_PWM_CHANNELS]"
      using True by (simp add: upt_conv_Cons)
    from "1.IH" [OF True _ len1] True
    have IH: "pwm_period_us (RunImpl_test_channels (i + 1) ?s1) = pwm_period_us ?s1
     \<and> pca_pwm (RunImpl_test_channels (i + 1) ?s1) = pca_pwm ?s1
     \<and> i2cpwm_interval (RunImpl_test_channels (i + 1) ?s1) = i2cpwm_interval ?s1
     \<and> mode (RunImpl_test_channels (i + 1) ?s1) = mode ?s1
     \<and> pwm_freq (RunImpl_test_channels (i + 1) ?s1) = pwm_freq ?s1
     \<and> test_pwm (RunImpl_test_channels (i + 1) ?s1) = test_pwm ?s1
     \<and> current_values (RunImpl_test_channels (i + 1) ?s1) = current_values ?s1
     \<and> length (msg (RunImpl_test_channels (i + 1) ?s1)) = 6
     \<and> sent (trace (RunImpl_test_channels (i + 1) ?s1)) = sent (trace ?s1) @
          map (\<lambda>k. setPWM_frame (of_nat k) (fst (spec_setPin_ticks (test_pwm ?s1)))
                     (snd (spec_setPin_ticks (test_pwm ?s1)))) [i + 1..<NUMBER_PWM_CHANNELS]
     \<and> scheduled (trace (RunImpl_test_channels (i + 1) ?s1)) = scheduled (trace ?s1)"
      by simp
    have step: "RunImpl_test_channels i s = RunImpl_test_channels (i + 1) ?s1"
      using True by (simp add: RunImpl_test_channels.simps [of i s])
    show ?thesis
      unfolding step using IH "1.prems"(2)
      by (simp add: upt setPin_eq sent_append scheduled_append take5_frame setPWM_frame_def)
  qed
qed

lemma accepted_iff:
  "spec_period_accepted cur new \<longleftrightarrow> new \<noteq> cur \<and> 656 \<le> new \<and> new \<le> 41666"
  by (simp add: spec_period_accepted_def)

lemma accepted_settled:
  "\<not> spec_period_accepted
        (if spec_period_accepted cur new then new else cur) new"
  by (simp add: accepted_iff)

lemma RunImpl_period_eq:
  "RunImpl_period s =
     (if spec_period_accepted (pwm_period_us s) (pwm_period (pca_pwm s))
      then s\<lparr> pwm_period_us := pwm_period (pca_pwm s),
             pwm_freq := f32_div (Finite 1000000) (f32_of_u16 (pwm_period (pca_pwm s))),
             console := console s @ [DebugFreq (f32_div (Finite 1000000) (f32_of_u16 (pwm_period (pca_pwm s))))
                                       (pwm_period (pca_pwm s))] \<rparr>
      else s)"
  by (auto simp add: RunImpl_period_def spec_period_accepted_def PWM_PERIOD_MIN_US_def
      PWM_PERIOD_MAX_US_def DEVICE_LOG_def Let_def)

section \<open>One tick\<close>

text \<open>A tick of normal mode with a fresh command whose duties all have a value.\<close>

lemma RunImpl_fresh:
  assumes on: "mode s = IOX_MODE_ON"
    and lcv: "length (current_values s) = NUMBER_PWM_CHANNELS"
    and lmsg: "length (msg s) = 6"
    and p': "p' = (if spec_period_accepted (pwm_period_us s) (pwm_period m)
                   then pwm_period m else pwm_period_us s)"
    and def: "\<forall>j<NUMBER_PWM_CHANNELS. new_value p' (pulse_width m ! j) \<noteq> None"
  shows "\<exists>s'. RunImpl sub (Some m) s = Inr s'
     \<and> pwm_period_us s' = p'
     \<and> pwm_freq s' = (if spec_period_accepted (pwm_period_us s) (pwm_period m)
                       then f32_div (Finite 1000000) (f32_of_u16 (pwm_period m)) else pwm_freq s)
     \<and> pca_pwm s' = m
     \<and> i2cpwm_interval s' = i2cpwm_interval s \<and> mode s' = mode s
     \<and> length (msg s') = 6
     \<and> current_values s' = map (channel_value p' (pulse_width m) (current_values s)) [0..<NUMBER_PWM_CHANNELS]
     \<and> sent (trace s') = sent (trace s) @
          concat (map (channel_frames p' (pulse_width m) (current_values s)) [0..<NUMBER_PWM_CHANNELS])
     \<and> scheduled (trace s') = scheduled (trace s) @ [i2cpwm_interval s]
     \<and> last (trace s') = ScheduleDelayed (i2cpwm_interval s)"
proof -
  define s1 where "s1 = (if \<not> mode_on_initialized s
                     then s\<lparr> pca_pwm_sub := sub,
                             trace := trace s @ [OrbSubscribe, OrbSetInterval ORB_SUB_UPDATE_PERIOD],
                             mode_on_initialized := True \<rparr>
                     else s)"
  define s3 where "s3 = RunImpl_period (s1\<lparr> updated := True, pca_pwm := m \<rparr>)"
  have s3: "pwm_period_us s3 = p'" "pca_pwm s3 = m" "i2cpwm_interval s3 = i2cpwm_interval s"
    "mode s3 = mode s" "length (msg s3) = 6" "current_values s3 = current_values s"
    "sent (trace s3) = sent (trace s)" "scheduled (trace s3) = scheduled (trace s)"
    "pwm_freq s3 = (if spec_period_accepted (pwm_period_us s) (pwm_period m)
                       then f32_div (Finite 1000000) (f32_of_u16 (pwm_period m)) else pwm_freq s)"
    using lmsg by (simp_all add: s3_def s1_def RunImpl_period_eq p' sent_append scheduled_append)
  have "\<forall>j. 0 \<le> j \<and> j < NUMBER_PWM_CHANNELS \<longrightarrow>
           new_value (pwm_period_us s3) (pulse_width (pca_pwm s3) ! j) \<noteq> None"
    using def s3 by simp
  from RunImpl_channels_result [OF _ _ s3(5) this] lcv s3
  obtain s4 where s4: "RunImpl_channels 0 s3 = Inr s4"
     "pwm_period_us s4 = p'" "pca_pwm s4 = m"
     "i2cpwm_interval s4 = i2cpwm_interval s" "mode s4 = mode s" "pwm_freq s4 = pwm_freq s3"
     "length (msg s4) = 6"
     "current_values s4 = map (channel_value p' (pulse_width m) (current_values s)) [0..<NUMBER_PWM_CHANNELS]"
     "sent (trace s4) = sent (trace s) @
          concat (map (channel_frames p' (pulse_width m) (current_values s)) [0..<NUMBER_PWM_CHANNELS])"
     "scheduled (trace s4) = scheduled (trace s)"
    by auto
  have "RunImpl sub (Some m) s = Inr (ScheduleDelayed_call (i2cpwm_interval s4) s4)"
    using on s4(1) by (simp add: RunImpl_def Let_def s3_def s1_def)
  then show ?thesis
    using s4 s3(9) by (simp add: ScheduleDelayed_call_def scheduled_append sent_append)
qed

lemma RunImpl_fresh_undefined:
  assumes on: "mode s = IOX_MODE_ON"
    and lmsg: "length (msg s) = 6"
    and p': "p' = (if spec_period_accepted (pwm_period_us s) (pwm_period m)
                   then pwm_period m else pwm_period_us s)"
    and j: "j < NUMBER_PWM_CHANNELS" "new_value p' (pulse_width m ! j) = None"
  shows "RunImpl sub (Some m) s = Inl Float_to_int_undefined"
proof -
  define s1 where "s1 = (if \<not> mode_on_initialized s
                     then s\<lparr> pca_pwm_sub := sub,
                             trace := trace s @ [OrbSubscribe, OrbSetInterval ORB_SUB_UPDATE_PERIOD],
                             mode_on_initialized := True \<rparr>
                     else s)"
  define s3 where "s3 = RunImpl_period (s1\<lparr> updated := True, pca_pwm := m \<rparr>)"
  have s3: "pwm_period_us s3 = p'" "pca_pwm s3 = m" "length (msg s3) = 6"
    using lmsg by (simp_all add: s3_def s1_def RunImpl_period_eq p')
  have "RunImpl_channels 0 s3 = Inl Float_to_int_undefined"
    by (rule RunImpl_channels_undefined [OF _ j(1) _ s3(3)]) (simp_all add: s3 j)
  then show ?thesis
    using on by (simp add: RunImpl_def Let_def s3_def s1_def)
qed

lemma RunImpl_no_command:
  assumes on: "mode s = IOX_MODE_ON"
  shows "\<exists>s'. RunImpl sub None s = Inr s'
     \<and> pwm_period_us s' = pwm_period_us s \<and> pwm_freq s' = pwm_freq s
     \<and> i2cpwm_interval s' = i2cpwm_interval s \<and> mode s' = mode s
     \<and> current_values s' = current_values s
     \<and> sent (trace s') = sent (trace s)
     \<and> scheduled (trace s') = scheduled (trace s) @ [i2cpwm_interval s]
     \<and> last (trace s') = ScheduleDelayed (i2cpwm_interval s)"
  using on by (simp add: RunImpl_def Let_def ScheduleDelayed_call_def scheduled_append sent_append)

lemma RunImpl_test:
  assumes test: "mode s = IOX_MODE_TEST_OUT"
    and lmsg: "length (msg s) = 6"
  shows "\<exists>s'. RunImpl sub fresh s = Inr s'
     \<and> pwm_period_us s' = pwm_period_us s \<and> pwm_freq s' = pwm_freq s
     \<and> i2cpwm_interval s' = i2cpwm_interval s \<and> mode s' = mode s
     \<and> current_values s' = current_values s
     \<and> test_pwm s' = (if test_pwm s > 4096 then 0 else test_pwm s) + 409
     \<and> sent (trace s') = sent (trace s) @
          map (\<lambda>k. setPWM_frame (of_nat k)
                      (fst (spec_setPin_ticks (if test_pwm s > 4096 then 0 else test_pwm s)))
                      (snd (spec_setPin_ticks (if test_pwm s > 4096 then 0 else test_pwm s))))
              [0..<NUMBER_PWM_CHANNELS]
     \<and> scheduled (trace s') = scheduled (trace s) @ [i2cpwm_interval s]
     \<and> last (trace s') = ScheduleDelayed (i2cpwm_interval s)"
proof -
  define s1 where "s1 = (if test_pwm s > 4096 then s\<lparr> test_pwm := 0 \<rparr> else s)"
  have l1: "length (msg s1) = 6" using lmsg by (simp add: s1_def)
  from RunImpl_test_channels_result [OF _ l1, of 0]
  show ?thesis
    using test by (simp add: RunImpl_def Let_def s1_def [symmetric] ScheduleDelayed_call_def
        scheduled_append sent_append) (simp add: s1_def)
qed

lemma period_adoption_helper:
  assumes "mode s = IOX_MODE_ON"
    and "length (current_values s) = NUMBER_PWM_CHANNELS"
    and "length (msg s) = 6"
  shows "RunImpl sub (Some m) s = Inr s' \<Longrightarrow>
     pwm_period_us s' = (if spec_period_accepted (pwm_period_us s) (pwm_period m)
                         then pwm_period m else pwm_period_us s)"
proof -
  assume run: "RunImpl sub (Some m) s = Inr s'"
  define p' where "p' = (if spec_period_accepted (pwm_period_us s) (pwm_period m)
                   then pwm_period m else pwm_period_us s)"
  show ?thesis
  proof (cases "\<forall>j<NUMBER_PWM_CHANNELS. new_value p' (pulse_width m ! j) \<noteq> None")
    case True
    from RunImpl_fresh [OF assms p'_def True, of sub] run show ?thesis
      by (auto simp add: p'_def)
  next
    case False
    then obtain j where "j < NUMBER_PWM_CHANNELS" "new_value p' (pulse_width m ! j) = None"
      by auto
    from RunImpl_fresh_undefined [OF assms(1,3) p'_def this, of sub] run show ?thesis by simp
  qed
qed

text \<open>Two ticks in a row with the same command.\<close>

lemma RunImpl_twice:
  assumes on: "mode s = IOX_MODE_ON"
    and lcv: "length (current_values s) = NUMBER_PWM_CHANNELS"
    and lmsg: "length (msg s) = 6"
    and nz: "\<forall>j<NUMBER_PWM_CHANNELS. pulse_width m ! j \<noteq> 0"
  shows "\<exists>s1 s2. RunImpl sub (Some m) s = Inr s1 \<and> RunImpl sub2 (Some m) s1 = Inr s2
     \<and> (\<forall>i<NUMBER_PWM_CHANNELS. \<forall>nv.
           new_value (pwm_period_us s1) (pulse_width m ! i) = Some nv \<and> nv < 4096 \<longrightarrow>
           current_values s1 ! i = nv)
     \<and> pwm_period_us s2 = pwm_period_us s1
     \<and> current_values s2 = current_values s1
     \<and> sent (trace s2) = sent (trace s1)"
proof -
  define p' where "p' = (if spec_period_accepted (pwm_period_us s) (pwm_period m)
                   then pwm_period m else pwm_period_us s)"
  have def: "\<forall>j<NUMBER_PWM_CHANNELS. new_value p' (pulse_width m ! j) \<noteq> None"
    using nz by (simp add: new_value_None_iff)
  from RunImpl_fresh [OF on lcv lmsg p'_def def, of sub] obtain s1 where
    run1: "RunImpl sub (Some m) s = Inr s1" and per1: "pwm_period_us s1 = p'"
    and on1: "mode s1 = IOX_MODE_ON" and lmsg1: "length (msg s1) = 6"
    and cv1: "current_values s1 =
        map (channel_value p' (pulse_width m) (current_values s)) [0..<NUMBER_PWM_CHANNELS]"
    using on by auto
  have lcv1: "length (current_values s1) = NUMBER_PWM_CHANNELS" by (simp add: cv1)
  have p'': "p' = (if spec_period_accepted (pwm_period_us s1) (pwm_period m)
                   then pwm_period m else pwm_period_us s1)"
    using accepted_settled [of "pwm_period_us s" "pwm_period m"] by (simp add: per1 p'_def)
  from RunImpl_fresh [OF on1 lcv1 lmsg1 p'' def, of sub2] obtain s2 where
    run2: "RunImpl sub2 (Some m) s1 = Inr s2" and per2: "pwm_period_us s2 = p'"
    and cv2: "current_values s2 =
        map (channel_value p' (pulse_width m) (current_values s1)) [0..<NUMBER_PWM_CHANNELS]"
    and tr2: "sent (trace s2) = sent (trace s1) @
          concat (map (channel_frames p' (pulse_width m) (current_values s1)) [0..<NUMBER_PWM_CHANNELS])"
    by blast
  have at: "current_values s1 ! i = channel_value p' (pulse_width m) (current_values s) i"
    if "i < NUMBER_PWM_CHANNELS" for i
    using that by (simp add: cv1)
  have same: "map (channel_value p' (pulse_width m) (current_values s1)) [0..<NUMBER_PWM_CHANNELS]
      = current_values s1"
    using lcv1 by (intro nth_equalityI) (simp_all add: channel_settled(1) [OF at])
  have none: "map (channel_frames p' (pulse_width m) (current_values s1)) [0..<NUMBER_PWM_CHANNELS]
      = map (\<lambda>i. []) [0..<NUMBER_PWM_CHANNELS]"
    by (intro map_cong) (simp_all add: channel_settled(2) [OF at])
  have applied: "current_values s1 ! i = nv"
    if "i < NUMBER_PWM_CHANNELS" "new_value p' (pulse_width m ! i) = Some nv" "nv < 4096" for i nv
    using that by (auto simp add: at channel_value_def)
  from run1 run2 per1 per2 cv2 tr2 same none applied show ?thesis
    by (auto simp add: per1)
qed

lemma example_cmd_fields:
  "pwm_period (example_cmd p a b) = p"
  "pulse_width (example_cmd p a b) ! 0 = a"
  "0 < j \<Longrightarrow> j < NUMBER_PWM_CHANNELS \<Longrightarrow> pulse_width (example_cmd p a b) ! j = b"
  by (simp_all add: example_cmd_def NUMBER_PWM_CHANNELS_def nth_Cons')

lemma example_cmd_nonzero:
  "a \<noteq> 0 \<Longrightarrow> b \<noteq> 0 \<Longrightarrow> \<forall>j<NUMBER_PWM_CHANNELS. pulse_width (example_cmd p a b) ! j \<noteq> 0"
  by (simp add: example_cmd_def NUMBER_PWM_CHANNELS_def nth_Cons')

lemma example_pulse_widths:
  "pulse_width (example_cmd p a b) = [a, b, b, b, b, b, b, b, b, b, b, b, b, b, b, b]"
  by (simp add: example_cmd_def eval_nat_numeral)

lemma channels_list:
  "[0..<NUMBER_PWM_CHANNELS] = [0, 1, 2, 3, 4, 5, 6, 7, 8, 9, 10, 11, 12, 13, 14, 15]"
  by (simp add: NUMBER_PWM_CHANNELS_def upt_rec)

text \<open>The tick from the freshly constructed driver with an example command of the period
  20000, which is the period the driver starts with.\<close>

lemma first_tick:
  assumes "a \<noteq> 0" and "b \<noteq> 0"
  shows "\<exists>s'. RunImpl sub (Some (example_cmd 20000 a b)) (PCA9685_ctor r bus) = Inr s'
     \<and> current_values s' =
          map (channel_value 20000 (pulse_width (example_cmd 20000 a b))
                 (current_values (PCA9685_ctor r bus))) [0..<NUMBER_PWM_CHANNELS]
     \<and> sent (trace s') =
          concat (map (channel_frames 20000 (pulse_width (example_cmd 20000 a b))
                         (current_values (PCA9685_ctor r bus))) [0..<NUMBER_PWM_CHANNELS])"
proof -
  define p' where "p' = (if spec_period_accepted (pwm_period_us (PCA9685_ctor r bus))
                      (pwm_period (example_cmd 20000 a b))
                   then pwm_period (example_cmd 20000 a b)
                   else pwm_period_us (PCA9685_ctor r bus))"
  have p: "p' = 20000"
    by (simp add: p'_def ctor_fields example_cmd_fields accepted_iff)
  have "\<forall>j<NUMBER_PWM_CHANNELS. new_value p' (pulse_width (example_cmd 20000 a b) ! j) \<noteq> None"
    using example_cmd_nonzero [OF assms, of 20000] by (simp add: new_value_None_iff)
  from RunImpl_fresh [where s = "PCA9685_ctor r bus" and sub = sub,
      OF ctor_fields(1) ctor_lengths p'_def this]
  show ?thesis
    by (auto simp add: p ctor_fields(10))
qed

lemma failed_write_tick:
  "case RunImpl 3 (Some (example_cmd 20000 40000 20000)) (PCA9685_ctor 20000 bus_fail) of
     Inl e \<Rightarrow> False
   | Inr s' \<Rightarrow>
       trace s' = [OrbSubscribe, OrbSetInterval 10, Transfer [6, 0, 0, 0, 8] 0 (- 1),
                   ScheduleDelayed 20000]
       \<and> comms_errors s' = 1 \<and> current_values s' ! 0 = 2048"
  by code_simp

section \<open>The channel update\<close>

text \<open>
  C1, amended. In normal mode, for every fresh command without a zero pulse width and
  every channel \<open>i\<close> in \<open>0..15\<close>, the control loop computes the duty
  \<open>period / pulse_width[i] * 4096\<close> in single precision (with the period in force after the
  period update), drops the fraction and keeps the low 16 bits. It applies the duty with
  \<^verbatim>\<open>setPin\<close> and stores it as the channel's last-applied value exactly when it differs
  from the last-applied value and is below 4096; a duty of 4096 or more is not applied.
\<close>

theorem duty_update:
  assumes "mode s = IOX_MODE_ON"
    and "length (current_values s) = NUMBER_PWM_CHANNELS"
    and "length (msg s) = 6"
    and "\<forall>j<NUMBER_PWM_CHANNELS. pulse_width m ! j \<noteq> 0"
  shows "\<exists>s'. RunImpl sub (Some m) s = Inr s'
     \<and> (\<forall>i<NUMBER_PWM_CHANNELS. \<exists>y.
           f32_div (f32_of_u16 (pwm_period_us s')) (f32_of_u16 (pulse_width m ! i)) = Finite y
         \<and> new_value (pwm_period_us s') (pulse_width m ! i) = Some (word_of_int \<lfloor>y * 4096\<rfloor>)
         \<and> current_values s' ! i =
             (if word_of_int \<lfloor>y * 4096\<rfloor> \<noteq> current_values s ! i
                 \<and> (word_of_int \<lfloor>y * 4096\<rfloor> :: u16) < 4096
              then word_of_int \<lfloor>y * 4096\<rfloor> else current_values s ! i))
     \<and> sent (trace s') = sent (trace s) @
          concat (map (channel_frames (pwm_period_us s') (pulse_width m) (current_values s))
                      [0..<NUMBER_PWM_CHANNELS])"
proof -
  define p' where "p' = (if spec_period_accepted (pwm_period_us s) (pwm_period m)
                   then pwm_period m else pwm_period_us s)"
  have "\<forall>j<NUMBER_PWM_CHANNELS. new_value p' (pulse_width m ! j) \<noteq> None"
    using assms(4) by (simp add: new_value_None_iff)
  from RunImpl_fresh [OF assms(1-3) p'_def this, of sub] obtain s' where
    run: "RunImpl sub (Some m) s = Inr s'" and per: "pwm_period_us s' = p'"
    and cv: "current_values s' =
        map (channel_value p' (pulse_width m) (current_values s)) [0..<NUMBER_PWM_CHANNELS]"
    and tr: "sent (trace s') = sent (trace s) @
          concat (map (channel_frames p' (pulse_width m) (current_values s)) [0..<NUMBER_PWM_CHANNELS])"
    by blast
  have "\<exists>y. f32_div (f32_of_u16 p') (f32_of_u16 (pulse_width m ! i)) = Finite y
         \<and> new_value p' (pulse_width m ! i) = Some (word_of_int \<lfloor>y * 4096\<rfloor>)
         \<and> current_values s' ! i =
             (if word_of_int \<lfloor>y * 4096\<rfloor> \<noteq> current_values s ! i
                 \<and> (word_of_int \<lfloor>y * 4096\<rfloor> :: u16) < 4096
              then word_of_int \<lfloor>y * 4096\<rfloor> else current_values s ! i)"
    if i: "i < NUMBER_PWM_CHANNELS" for i
  proof -
    from assms(4) i have "pulse_width m ! i \<noteq> 0" by simp
    from new_value_Some [OF this, of p'] obtain y where
      y: "f32_div (f32_of_u16 p') (f32_of_u16 (pulse_width m ! i)) = Finite y"
        "new_value p' (pulse_width m ! i) = Some (word_of_int \<lfloor>y * 4096\<rfloor>)"
      by blast
    from i have "current_values s' ! i = channel_value p' (pulse_width m) (current_values s) i"
      by (simp add: cv)
    with y show ?thesis by (auto simp add: channel_value_def)
  qed
  with run per tr show ?thesis by auto
qed

theorem duty_update_witness:
  "mode (PCA9685_ctor 20000 bus_ok) = IOX_MODE_ON
   \<and> length (current_values (PCA9685_ctor 20000 bus_ok)) = NUMBER_PWM_CHANNELS
   \<and> length (msg (PCA9685_ctor 20000 bus_ok)) = 6
   \<and> (\<exists>s'. RunImpl 3 (Some (example_cmd 20000 30000 20000)) (PCA9685_ctor 20000 bus_ok) = Inr s'
         \<and> pwm_period_us s' = 20000
         \<and> new_value 20000 30000 = Some 2730
         \<and> current_values s' ! 0 = 2730
         \<and> current_values s' ! 1 = 0
         \<and> sent (trace s') = [[6, 0, 0, 170, 10]])"
proof -
  let ?s = "PCA9685_ctor 20000 bus_ok" and ?m = "example_cmd 20000 30000 20000"
  have on: "mode ?s = IOX_MODE_ON" by (simp add: ctor_fields)
  have nz: "\<forall>j<NUMBER_PWM_CHANNELS. pulse_width ?m ! j \<noteq> 0"
    by (rule example_cmd_nonzero) simp_all
  from duty_update [where s = ?s and sub = 3, OF on ctor_lengths nz] obtain s' where
    run: "RunImpl 3 (Some ?m) ?s = Inr s'"
    and ch: "\<forall>i<NUMBER_PWM_CHANNELS. \<exists>y.
           f32_div (f32_of_u16 (pwm_period_us s')) (f32_of_u16 (pulse_width ?m ! i)) = Finite y
         \<and> new_value (pwm_period_us s') (pulse_width ?m ! i) = Some (word_of_int \<lfloor>y * 4096\<rfloor>)
         \<and> current_values s' ! i =
             (if word_of_int \<lfloor>y * 4096\<rfloor> \<noteq> current_values ?s ! i
                 \<and> (word_of_int \<lfloor>y * 4096\<rfloor> :: u16) < 4096
              then word_of_int \<lfloor>y * 4096\<rfloor> else current_values ?s ! i)"
    and tr: "sent (trace s') = sent (trace ?s) @
          concat (map (channel_frames (pwm_period_us s') (pulse_width ?m) (current_values ?s))
                      [0..<NUMBER_PWM_CHANNELS])"
    by blast
  from period_adoption_helper [where s = ?s and sub = 3 and m = ?m, OF on ctor_lengths] run
  have per: "pwm_period_us s' = 20000"
    by (auto simp add: ctor_fields example_cmd_fields accepted_iff)
  from ch [rule_format, of 0] have c0: "current_values s' ! 0 = 2730"
    by (auto simp add: per NUMBER_PWM_CHANNELS_def example_pulse_widths ctor_values
        new_value_20000_30000)
  from ch [rule_format, of 1] have c1: "current_values s' ! 1 = 0"
    by (auto simp add: per NUMBER_PWM_CHANNELS_def example_pulse_widths ctor_values
        new_value_20000_20000)
  from tr have t: "sent (trace s') = [[6, 0, 0, 170, 10]]"
    by (simp add: per ctor_fields(10) channels_list example_pulse_widths ctor_values
        channel_frames_def new_value_20000_30000 new_value_20000_20000 spec_setPin_ticks_def
        setPWM_frame_def LED0_ON_L_def)
  from run per c0 c1 t show ?thesis
    by (simp add: ctor_fields ctor_lengths new_value_20000_30000)
qed

text \<open>
  C1 as stated fails where the quotient is not a whole number: for the period 20000 and
  the pulse width 30000 the duty is \<open>2730.67\<close>, which the specification rounds to 2731;
  the conversion to \<^verbatim>\<open>uint16_t\<close> drops the fraction, and the driver applies 2730.
\<close>

theorem duty_truncates_counterexample:
  "\<not> isl (RunImpl 3 (Some (example_cmd 20000 30000 20000)) (PCA9685_ctor 20000 bus_ok))
   \<and> current_values (projr (RunImpl 3 (Some (example_cmd 20000 30000 20000)) (PCA9685_ctor 20000 bus_ok))) ! 0
       = 2730
   \<and> sent (trace (projr (RunImpl 3 (Some (example_cmd 20000 30000 20000)) (PCA9685_ctor 20000 bus_ok))))
       = [setPWM_frame 0 0 2730]
   \<and> spec_new_duty 20000 30000 = 2731"
proof -
  have spec: "spec_new_duty 20000 30000 = 2731"
    by code_simp
  from first_tick [of 30000 20000 3 20000 bus_ok] show ?thesis
    by (auto simp add: spec channels_list example_pulse_widths ctor_values channel_value_def
        channel_frames_def new_value_20000_30000 new_value_20000_20000 spec_setPin_ticks_def)
qed

text \<open>
  C2, amended. For a fresh command without a zero pulse width, the last-applied value of
  a channel is set to the new duty whenever the duty differs from it and is below 4096,
  whatever the bus answers to the write: the result of \<^verbatim>\<open>setPin\<close> is not looked at. So
  after a tick with such a command every duty below 4096 is the channel's last-applied
  value, and a tick that follows with the same command sends nothing: a write that failed
  is not retried.
\<close>

theorem no_retry:
  assumes "mode s = IOX_MODE_ON"
    and "length (current_values s) = NUMBER_PWM_CHANNELS"
    and "length (msg s) = 6"
    and "\<forall>j<NUMBER_PWM_CHANNELS. pulse_width m ! j \<noteq> 0"
  shows "\<exists>s1 s2. RunImpl sub (Some m) s = Inr s1 \<and> RunImpl sub2 (Some m) s1 = Inr s2
     \<and> (\<forall>i<NUMBER_PWM_CHANNELS. \<forall>nv.
           new_value (pwm_period_us s1) (pulse_width m ! i) = Some nv \<and> nv < 4096 \<longrightarrow>
           current_values s1 ! i = nv)
     \<and> pwm_period_us s2 = pwm_period_us s1
     \<and> current_values s2 = current_values s1
     \<and> sent (trace s2) = sent (trace s1)"
  using assms by (rule RunImpl_twice)

theorem no_retry_witness:
  "mode (PCA9685_ctor 20000 bus_fail) = IOX_MODE_ON
   \<and> length (current_values (PCA9685_ctor 20000 bus_fail)) = NUMBER_PWM_CHANNELS
   \<and> length (msg (PCA9685_ctor 20000 bus_fail)) = 6
   \<and> (\<exists>s1 s2. RunImpl 3 (Some (example_cmd 20000 40000 20000)) (PCA9685_ctor 20000 bus_fail) = Inr s1
         \<and> RunImpl 3 (Some (example_cmd 20000 40000 20000)) s1 = Inr s2
         \<and> comms_errors s1 = 1
         \<and> current_values s1 ! 0 = 2048
         \<and> current_values s2 = current_values s1
         \<and> sent (trace s2) = sent (trace s1))"
proof -
  let ?s = "PCA9685_ctor 20000 bus_fail" and ?m = "example_cmd 20000 40000 20000"
  have on: "mode ?s = IOX_MODE_ON" by (simp add: ctor_fields)
  have nz: "\<forall>j<NUMBER_PWM_CHANNELS. pulse_width ?m ! j \<noteq> 0"
    by (rule example_cmd_nonzero) simp_all
  from no_retry [where s = ?s and sub = 3 and ?sub2.0 = 3, OF on ctor_lengths nz] obtain s1 s2 where
    "RunImpl 3 (Some ?m) ?s = Inr s1" "RunImpl 3 (Some ?m) s1 = Inr s2"
    "current_values s2 = current_values s1" "sent (trace s2) = sent (trace s1)"
    by blast
  with failed_write_tick show ?thesis
    by (auto simp add: ctor_fields ctor_lengths)
qed

text \<open>
  C2 as stated fails on a bus that rejects the write: the only transfer of the tick
  returns \<open>- 1\<close>, the last-applied value of channel 0 goes from 0 to 2048 all the same, and
  the next tick with the same command sends no frame.
\<close>

theorem failed_write_counterexample:
  "\<not> isl (RunImpl 3 (Some (example_cmd 20000 40000 20000)) (PCA9685_ctor 20000 bus_fail))
   \<and> trace (projr (RunImpl 3 (Some (example_cmd 20000 40000 20000)) (PCA9685_ctor 20000 bus_fail)))
       = [OrbSubscribe, OrbSetInterval 10, Transfer [6, 0, 0, 0, 8] 0 (- 1), ScheduleDelayed 20000]
   \<and> current_values (PCA9685_ctor 20000 bus_fail) ! 0 = 0
   \<and> current_values (projr (RunImpl 3 (Some (example_cmd 20000 40000 20000)) (PCA9685_ctor 20000 bus_fail))) ! 0
       = 2048
   \<and> \<not> isl (RunImpl 3 (Some (example_cmd 20000 40000 20000))
              (projr (RunImpl 3 (Some (example_cmd 20000 40000 20000)) (PCA9685_ctor 20000 bus_fail))))
   \<and> sent (trace (projr (RunImpl 3 (Some (example_cmd 20000 40000 20000))
              (projr (RunImpl 3 (Some (example_cmd 20000 40000 20000)) (PCA9685_ctor 20000 bus_fail))))))
       = sent (trace (projr (RunImpl 3 (Some (example_cmd 20000 40000 20000)) (PCA9685_ctor 20000 bus_fail))))"
proof -
  let ?s = "PCA9685_ctor 20000 bus_fail" and ?m = "example_cmd 20000 40000 20000"
  have on: "mode ?s = IOX_MODE_ON" by (simp add: ctor_fields)
  have nz: "\<forall>j<NUMBER_PWM_CHANNELS. pulse_width ?m ! j \<noteq> 0"
    by (rule example_cmd_nonzero) simp_all
  from RunImpl_twice [where s = ?s and sub = 3 and ?sub2.0 = 3, OF on ctor_lengths nz] obtain s1 s2 where
    "RunImpl 3 (Some ?m) ?s = Inr s1" "RunImpl 3 (Some ?m) s1 = Inr s2"
    "current_values s2 = current_values s1" "sent (trace s2) = sent (trace s1)"
    by blast
  with failed_write_tick show ?thesis
    by (auto simp add: ctor_values)
qed

text \<open>
  C9. The duty computation divides by the pulse width unguarded. For a fresh command with
  a pulse width of 0 the quotient is an infinity (or NaN), whose conversion to an integer
  has no value: \<open>new_value\<close> is \<open>None\<close> there and the tick ends in the error instead of
  computing a duty for the channel.
\<close>

theorem zero_pulse_width_undefined:
  assumes "mode s = IOX_MODE_ON"
    and "length (msg s) = 6"
    and "j < NUMBER_PWM_CHANNELS"
    and "pulse_width m ! j = 0"
  shows "new_value period 0 = None
     \<and> f32_div (f32_of_u16 period) (f32_of_u16 0) \<in> {PInf, NaN}
     \<and> RunImpl sub (Some m) s = Inl Float_to_int_undefined"
proof -
  define p' where "p' = (if spec_period_accepted (pwm_period_us s) (pwm_period m)
                   then pwm_period m else pwm_period_us s)"
  have "new_value p' (pulse_width m ! j) = None"
    by (simp add: assms(4) new_value_zero_pulse)
  from RunImpl_fresh_undefined [OF assms(1,2) p'_def assms(3) this]
  have "RunImpl sub (Some m) s = Inl Float_to_int_undefined" .
  moreover have "f32_div (f32_of_u16 period) (f32_of_u16 0) \<in> {PInf, NaN}"
  proof (cases "uint period = 0")
    case True
    then show ?thesis by (simp add: f32_of_u16_def del: of_int_uint)
  next
    case False
    moreover have "0 \<le> uint period" by (rule uint_ge_0)
    ultimately have "0 < uint period" by linarith
    then show ?thesis by (simp add: f32_of_u16_def del: of_int_uint)
  qed
  ultimately show ?thesis by (simp add: new_value_zero_pulse)
qed

theorem zero_pulse_width_undefined_witness:
  "mode (PCA9685_ctor 20000 bus_ok) = IOX_MODE_ON
   \<and> length (msg (PCA9685_ctor 20000 bus_ok)) = 6
   \<and> (0 :: nat) < NUMBER_PWM_CHANNELS
   \<and> pulse_width (example_cmd 20000 0 20000) ! 0 = 0
   \<and> new_value 20000 0 = None
   \<and> RunImpl 3 (Some (example_cmd 20000 0 20000)) (PCA9685_ctor 20000 bus_ok)
       = Inl Float_to_int_undefined"
proof -
  let ?s = "PCA9685_ctor 20000 bus_ok" and ?m = "example_cmd 20000 0 20000"
  have on: "mode ?s = IOX_MODE_ON" by (simp add: ctor_fields)
  have j: "(0 :: nat) < NUMBER_PWM_CHANNELS" by (simp add: NUMBER_PWM_CHANNELS_def)
  have z: "pulse_width ?m ! 0 = 0" by (simp add: example_cmd_fields)
  from zero_pulse_width_undefined [where s = ?s and sub = 3 and period = 20000,
      OF on ctor_lengths(2) j z]
  show ?thesis
    by (simp add: on ctor_lengths j z)
qed

text \<open>
  C10. The duty is converted to 16 bits before it is compared with 4096. For the period
  20000 and the pulse width 1200 the quotient is above 16 and the duty is 68266; its low
  16 bits are 2730, which differs from the last-applied 0 and is below 4096, so the
  driver writes 2730 to channel 0.
\<close>

theorem duty_wraps:
  "f32_mul (f32_div (f32_of_u16 20000) (f32_of_u16 1200)) (Finite 4096) = Finite (8738133 / 128)
   \<and> trunc (8738133 / 128) = 68266
   \<and> (65536 :: int) \<le> 68266
   \<and> (68266 :: int) mod 2 ^ 16 = 2730
   \<and> new_value 20000 1200 = Some 2730
   \<and> \<not> isl (RunImpl 3 (Some (example_cmd 20000 1200 20000)) (PCA9685_ctor 20000 bus_ok))
   \<and> current_values (PCA9685_ctor 20000 bus_ok) ! 0 = 0
   \<and> current_values (projr (RunImpl 3 (Some (example_cmd 20000 1200 20000)) (PCA9685_ctor 20000 bus_ok))) ! 0
       = 2730
   \<and> sent (trace (projr (RunImpl 3 (Some (example_cmd 20000 1200 20000)) (PCA9685_ctor 20000 bus_ok))))
       = [setPWM_frame 0 0 2730]"
proof -
  have t: "trunc (8738133 / 128) = 68266" by code_simp
  from first_tick [of 1200 20000 3 20000 bus_ok] show ?thesis
    by (auto simp add: t quotient_20000_1200 channels_list example_pulse_widths ctor_values
        channel_value_def channel_frames_def new_value_20000_1200 new_value_20000_20000
        spec_setPin_ticks_def)
qed

section \<open>Period and scheduling\<close>





text \<open>
  C3, amended. After every invocation of the control loop whose fresh command, if there
  is one, has no zero pulse width, in test mode and in normal mode, the loop reschedules
  itself once, as its last action, and the delay it passes is \<^verbatim>\<open>_i2cpwm_interval\<close>, the
  value the constructor stored; no tick changes that value, whatever period the tick
  adopts.
\<close>

theorem reschedule_fixed_interval:
  assumes "length (current_values s) = NUMBER_PWM_CHANNELS"
    and "length (msg s) = 6"
    and "\<forall>m j. fresh = Some m \<and> j < NUMBER_PWM_CHANNELS \<longrightarrow> pulse_width m ! j \<noteq> 0"
  shows "\<exists>s'. RunImpl sub fresh s = Inr s'
     \<and> scheduled (trace s') = scheduled (trace s) @ [i2cpwm_interval s]
     \<and> last (trace s') = ScheduleDelayed (i2cpwm_interval s)
     \<and> i2cpwm_interval s' = i2cpwm_interval s"
proof (cases "mode s")
  case IOX_MODE_TEST_OUT
  from RunImpl_test [OF this assms(2), of sub fresh] show ?thesis by blast
next
  case IOX_MODE_ON
  show ?thesis
  proof (cases fresh)
    case None
    from RunImpl_no_command [OF IOX_MODE_ON, of sub] None show ?thesis by blast
  next
    case (Some m)
    define p' where "p' = (if spec_period_accepted (pwm_period_us s) (pwm_period m)
                   then pwm_period m else pwm_period_us s)"
    have "\<forall>j<NUMBER_PWM_CHANNELS. new_value p' (pulse_width m ! j) \<noteq> None"
      using assms(3) Some by (simp add: new_value_None_iff)
    from RunImpl_fresh [OF IOX_MODE_ON assms(1,2) p'_def this, of sub] Some show ?thesis by blast
  qed
qed

theorem reschedule_fixed_interval_witness:
  "length (current_values (PCA9685_ctor 20000 bus_ok)) = NUMBER_PWM_CHANNELS
   \<and> length (msg (PCA9685_ctor 20000 bus_ok)) = 6
   \<and> (\<exists>s'. RunImpl 3 (Some (example_cmd 10000 20000 20000)) (PCA9685_ctor 20000 bus_ok) = Inr s'
         \<and> scheduled (trace s') = [20000] \<and> last (trace s') = ScheduleDelayed 20000
         \<and> i2cpwm_interval s' = 20000)"
proof -
  have nz: "\<forall>m j. Some (example_cmd 10000 20000 20000) = Some m \<and> j < NUMBER_PWM_CHANNELS
      \<longrightarrow> pulse_width m ! j \<noteq> 0"
    using example_cmd_nonzero [of 20000 20000 10000] by simp
  from reschedule_fixed_interval [where s = "PCA9685_ctor 20000 bus_ok" and sub = 3, OF ctor_lengths nz]
  show ?thesis
    by (simp add: ctor_fields ctor_lengths ctor_interval)
qed

text \<open>
  C3 as stated fails once a period change is accepted: a driver built with the interval
  20000 that receives a command with the period 10000 adopts 10000 and reschedules itself
  after 20000.
\<close>

theorem reschedule_counterexample:
  "\<not> isl (RunImpl 3 (Some (example_cmd 10000 20000 20000)) (PCA9685_ctor 20000 bus_ok))
   \<and> pwm_period_us (projr (RunImpl 3 (Some (example_cmd 10000 20000 20000)) (PCA9685_ctor 20000 bus_ok)))
       = 10000
   \<and> scheduled (trace (projr (RunImpl 3 (Some (example_cmd 10000 20000 20000)) (PCA9685_ctor 20000 bus_ok))))
       = [20000]"
proof -
  define p' where "p' = (if spec_period_accepted (pwm_period_us (PCA9685_ctor 20000 bus_ok))
                      (pwm_period (example_cmd 10000 20000 20000))
                   then pwm_period (example_cmd 10000 20000 20000)
                   else pwm_period_us (PCA9685_ctor 20000 bus_ok))"
  have p: "p' = 10000"
    by (simp add: p'_def ctor_fields example_cmd_fields accepted_iff)
  have "\<forall>j<NUMBER_PWM_CHANNELS. new_value p' (pulse_width (example_cmd 10000 20000 20000) ! j) \<noteq> None"
    using example_cmd_nonzero [of 20000 20000 10000] by (simp add: new_value_None_iff)
  from RunImpl_fresh [where s = "PCA9685_ctor 20000 bus_ok" and sub = 3,
      OF ctor_fields(1) ctor_lengths p'_def this]
  show ?thesis
    by (auto simp add: p ctor_fields ctor_interval)
qed

end
